theory Spec2Isabelle
  imports Complex_Main
begin

section \<open>Python values used by the video utilities\<close>

text \<open>
  The exceptions that the modelled code can raise. Every \<^verbatim>\<open>raise\<close> and every failing
  \<^verbatim>\<open>assert\<close> of the source is a result \<open>Inl e\<close> of the model.
\<close>

datatype py_error = AssertionError | TypeError | ValueError | IndexError | ZeroDivisionError

subsection \<open>\<^verbatim>\<open>collections.deque\<close>\<close>

text \<open>
  A deque is its items, leftmost first, and its \<^verbatim>\<open>maxlen\<close> (\<open>None\<close> when unbounded).
  \<^verbatim>\<open>deque(maxlen=n)\<close> raises \<^verbatim>\<open>ValueError\<close> for a negative \<open>n\<close>. \<^verbatim>\<open>appendleft\<close> on a
  full deque discards the item at the right end; \<^verbatim>\<open>pop\<close> removes the item at the right
  end and raises \<^verbatim>\<open>IndexError\<close> on an empty deque.
\<close>

record 'a deque =
  items :: "'a list"
  maxlen :: "nat option"

definition deque_new :: "int option \<Rightarrow> py_error + 'a deque" where
  "deque_new m =
     (case m of
        None \<Rightarrow> Inr \<lparr>items = [], maxlen = None\<rparr>
      | Some n \<Rightarrow> if n < 0 then Inl ValueError else Inr \<lparr>items = [], maxlen = Some (nat n)\<rparr>)"

definition appendleft :: "'a \<Rightarrow> 'a deque \<Rightarrow> 'a deque" where
  "appendleft x d =
     d\<lparr>items := (case maxlen d of None \<Rightarrow> x # items d | Some n \<Rightarrow> take n (x # items d))\<rparr>"

definition pop :: "'a deque \<Rightarrow> py_error + ('a \<times> 'a deque)" where
  "pop d = (if items d = [] then Inl IndexError
            else Inr (last (items d), d\<lparr>items := butlast (items d)\<rparr>))"

definition clear :: "'a deque \<Rightarrow> 'a deque" where
  "clear d = d\<lparr>items := []\<rparr>"

definition len :: "'a deque \<Rightarrow> nat" where
  "len d = length (items d)"

section \<open>\<^verbatim>\<open>video_getter_cv2.VideoStream\<close> and its \<^verbatim>\<open>vlc\<close> subclass\<close>

text \<open>
  One record serves both classes: \<open>video_stream_type\<close> says which class the object has, as
  the attribute of the same name does in the source. A capture handle or a player records
  whether \<^verbatim>\<open>release()\<close> has been called on it. \<open>sleeps\<close> is a history field: the arguments
  of the calls of \<^verbatim>\<open>time.sleep\<close> made by the methods of the object, latest first. Frames are values of an arbitrary type
  \<open>'f\<close>; \<open>currentFrame\<close> is \<open>None\<close> for Python's \<^verbatim>\<open>None\<close>. The resize hook is a pure
  function of whatever \<open>currentFrame\<close> holds. Times are rational numbers of seconds.
  Logging is left out, as is the \<^verbatim>\<open>vidInfo\<close> dictionary, which only repeats other fields.
\<close>

datatype backend = Cv2 | Vlc

datatype handle = Opened | Released

datatype source = Device int | Location string

record 'f video_stream =
  video_stream_type :: backend
  video_feed_name :: string
  source_type :: string
  src :: source
  stream :: handle
  reconnect_threshold_sec :: rat
  do_reconnect :: bool
  pauseTime :: "rat option"
  printTime :: "rat option"
  stopped :: bool
  Q :: "'f deque"
  max_cache :: int
  resize_fn :: "('f option \<Rightarrow> 'f option) option"
  inited :: bool
  manual_video_fps :: "int option"
  record_source_video :: bool
  frame_crop :: "int list option"
  fps :: "int option"
  vid_width :: "int option"
  vid_height :: "int option"
  out_vid :: "handle option"
  currentFrame :: "'f option"
  vlc_player :: "handle option"
  vlc_instance :: "handle option"
  sleeps :: "rat list"

text \<open>
  The keyword arguments of \<^verbatim>\<open>VideoStream.__init__\<close>, with their defaults. The \<^verbatim>\<open>vlc\<close>
  class has no \<^verbatim>\<open>max_cache\<close> parameter and always gets the default of the base class.
\<close>

record 'f stream_kwargs =
  queue_size :: "int option"
  recording_dir :: "string option"
  threshold_arg :: rat
  do_reconnect_arg :: bool
  resize_fn_arg :: "('f option \<Rightarrow> 'f option) option"
  frame_crop_arg :: "int list option"
  rtsp_tcp :: bool
  max_cache_arg :: int

definition default_kwargs :: "'f stream_kwargs" where
  "default_kwargs =
     \<lparr>queue_size = Some 3, recording_dir = None, threshold_arg = 20, do_reconnect_arg = True,
      resize_fn_arg = None, frame_crop_arg = None, rtsp_tcp = True, max_cache_arg = 10\<rparr>"

text \<open>
  \<^verbatim>\<open>__init__\<close> (lines 20-75, and lines 20-71 of the \<^verbatim>\<open>vlc\<close> class). Opening the capture
  and creating the recording directory are calls into libraries and are taken to return.
  The deque is built before the crop is checked, so a negative \<^verbatim>\<open>queue_size\<close> raises first.
  The only check on \<^verbatim>\<open>frame_crop\<close> is the assertion on its length.
\<close>

definition VideoStream_init ::
  "backend \<Rightarrow> string \<Rightarrow> string \<Rightarrow> source \<Rightarrow> int \<Rightarrow> 'f stream_kwargs \<Rightarrow> py_error + 'f video_stream"
where
  "VideoStream_init b name stype path manual kw =
     (case deque_new (queue_size kw) of
        Inl e \<Rightarrow> Inl e
      | Inr q \<Rightarrow>
          if (case frame_crop_arg kw of None \<Rightarrow> False | Some c \<Rightarrow> length c \<noteq> 4)
          then Inl AssertionError
          else Inr
            \<lparr>video_stream_type = b,
             video_feed_name = name,
             source_type = stype,
             src = path,
             stream = Opened,
             reconnect_threshold_sec = threshold_arg kw,
             do_reconnect = do_reconnect_arg kw,
             pauseTime = None,
             printTime = None,
             stopped = True,
             Q = q,
             max_cache = (case b of Cv2 \<Rightarrow> max_cache_arg kw | Vlc \<Rightarrow> 10),
             resize_fn = resize_fn_arg kw,
             inited = False,
             manual_video_fps = (if manual = -1 then None else Some manual),
             record_source_video = (recording_dir kw \<noteq> None),
             frame_crop = frame_crop_arg kw,
             fps = None,
             vid_width = None,
             vid_height = None,
             out_vid = None,
             currentFrame = None,
             vlc_player = (case b of Cv2 \<Rightarrow> None | Vlc \<Rightarrow> Some Opened),
             vlc_instance = (case b of Cv2 \<Rightarrow> None | Vlc \<Rightarrow> Some Opened),
             sleeps = []\<rparr>)"

subsection \<open>\<^verbatim>\<open>more\<close> and \<^verbatim>\<open>read\<close>\<close>

text \<open>\<^verbatim>\<open>more\<close> (lines 228-230); the name \<open>more\<close> belongs to the record package.\<close>

definition more_frames :: "'f video_stream \<Rightarrow> bool" where
  "more_frames s = (items (Q s) \<noteq> [])"

text \<open>
  \<^verbatim>\<open>read\<close> (lines 220-226): pop the right end of the deque into \<open>currentFrame\<close> when there
  is an item, then apply the resize hook to \<open>currentFrame\<close> when there is a hook, whether
  or not anything was popped, and return \<open>currentFrame\<close>.
\<close>

definition read :: "'f video_stream \<Rightarrow> py_error + ('f option \<times> 'f video_stream)" where
  "read s =
     (case (if more_frames s
            then (case pop (Q s) of
                    Inl e \<Rightarrow> Inl e
                  | Inr (x, q) \<Rightarrow> Inr (s\<lparr>Q := q, currentFrame := Some x\<rparr>))
            else Inr s) of
        Inl e \<Rightarrow> Inl e
      | Inr s1 \<Rightarrow>
          (let s2 = (case resize_fn s1 of
                       None \<Rightarrow> s1
                     | Some r \<Rightarrow> s1\<lparr>currentFrame := r (currentFrame s1)\<rparr>)
           in Inr (currentFrame s2, s2)))"

subsection \<open>\<^verbatim>\<open>init_src\<close>, \<^verbatim>\<open>start\<close>, \<^verbatim>\<open>stop\<close>, \<^verbatim>\<open>reconnect\<close>\<close>

text \<open>
  What the capture reports when it is opened: \<^verbatim>\<open>CAP_PROP_FPS\<close> and properties 3 and 4
  (width and height), all floats. \<^verbatim>\<open>int\<close> of a float truncates towards zero.
\<close>

record probe =
  cap_fps :: rat
  cap_width :: rat
  cap_height :: rat

definition py_int :: "rat \<Rightarrow> int" where
  "py_int r = (if 0 \<le> r then \<lfloor>r\<rfloor> else \<lceil>r\<rceil>)"

text \<open>
  Unpacking a list into four variables, \<^verbatim>\<open>l, t, r, b = self.frame_crop\<close>, raises
  \<^verbatim>\<open>ValueError\<close> unless the list has four entries.
\<close>

definition unpack4 :: "'a list \<Rightarrow> py_error + ('a \<times> 'a \<times> 'a \<times> 'a)" where
  "unpack4 xs = (case xs of [l, t, r, b] \<Rightarrow> Inr (l, t, r, b) | _ \<Rightarrow> Inl ValueError)"

text \<open>
  \<^verbatim>\<open>init_src\<close> (lines 77-115), in its three parts. The frame rate (lines 81-87):
  \<^verbatim>\<open>not self.manual_video_fps\<close> holds for \<^verbatim>\<open>None\<close> and for \<open>0\<close>. The size (lines 89-95):
  unpacking the crop may raise. The rest (lines 97-112): the recorder is created by
  \<^verbatim>\<open>__init_src_recorder\<close>, which the \<^verbatim>\<open>vlc\<close> class replaces by a method that does nothing.
  All of it is inside a \<^verbatim>\<open>try\<close> whose handler only logs, so after an exception the
  object keeps what was assigned until then.
\<close>

definition init_fps :: "probe \<Rightarrow> 'f video_stream \<Rightarrow> 'f video_stream" where
  "init_fps p s =
     (if manual_video_fps s = None \<or> manual_video_fps s = Some 0
      then s\<lparr>fps := Some (if py_int (cap_fps p) = 0 then 30 else py_int (cap_fps p))\<rparr>
      else s\<lparr>fps := manual_video_fps s\<rparr>)"

definition init_size :: "probe \<Rightarrow> 'f video_stream \<Rightarrow> py_error + 'f video_stream" where
  "init_size p s =
     (case frame_crop s of
        None \<Rightarrow> Inr (s\<lparr>vid_width := Some (py_int (cap_width p)),
                       vid_height := Some (py_int (cap_height p))\<rparr>)
      | Some c \<Rightarrow>
          (case unpack4 c of
             Inl e \<Rightarrow> Inl e
           | Inr (l, t, r, b) \<Rightarrow> Inr (s\<lparr>vid_width := Some (r - l), vid_height := Some (b - t)\<rparr>)))"

definition init_rest :: "'f video_stream \<Rightarrow> 'f video_stream" where
  "init_rest s =
     (let s1 = s\<lparr>out_vid := None\<rparr>;
          s2 = (if vid_width s1 \<noteq> Some 0 then s1\<lparr>inited := True\<rparr> else s1)
      in if video_stream_type s2 = Cv2 \<and> record_source_video s2 \<and> inited s2
         then s2\<lparr>out_vid := Some Opened\<rparr> else s2)"

definition init_src :: "probe \<Rightarrow> 'f video_stream \<Rightarrow> 'f video_stream" where
  "init_src p s =
     (let s1 = init_fps p (s\<lparr>stream := Opened\<rparr>)
      in case init_size p s1 of Inl e \<Rightarrow> s1 | Inr s2 \<Rightarrow> init_rest s2)"

text \<open>
  \<^verbatim>\<open>start\<close> (lines 132-143) initialises the source when that has not succeeded yet, clears
  the lifecycle flag and starts a thread that runs \<^verbatim>\<open>get\<close>. The deque is not touched.
\<close>

definition start :: "probe \<Rightarrow> 'f video_stream \<Rightarrow> 'f video_stream" where
  "start p s = (let s1 = (if \<not> inited s then init_src p s else s) in s1\<lparr>stopped := False\<rparr>)"

text \<open>
  \<^verbatim>\<open>stop\<close> of the \<^verbatim>\<open>cv2\<close> class (lines 232-247) and of the \<^verbatim>\<open>vlc\<close> class (lines 143-157).
  Both do nothing on a stream that is stopped already. A capture, a player and a writer
  are objects, and so true in a condition.
\<close>

definition stop_cv2 :: "'f video_stream \<Rightarrow> 'f video_stream" where
  "stop_cv2 s =
     (if \<not> stopped s then
        (let s1 = s\<lparr>stopped := True, sleeps := 1 / 10 # sleeps s\<rparr>;
             s2 = s1\<lparr>stream := Released\<rparr>;
             s3 = (if more_frames s2 then s2\<lparr>Q := clear (Q s2)\<rparr> else s2)
         in case out_vid s3 of None \<Rightarrow> s3 | Some w \<Rightarrow> s3\<lparr>out_vid := Some Released\<rparr>)
      else s)"

definition stop_vlc :: "'f video_stream \<Rightarrow> 'f video_stream" where
  "stop_vlc s =
     (if \<not> stopped s then
        (let s1 = s\<lparr>stopped := True, sleeps := 1 / 10 # sleeps s\<rparr>;
             s2 = (if more_frames s1 then s1\<lparr>Q := clear (Q s1)\<rparr> else s1)
         in case vlc_player s2 of
              None \<Rightarrow> s2
            | Some pl \<Rightarrow> s2\<lparr>vlc_player := Some Released, vlc_instance := Some Released\<rparr>)
      else s)"

definition stop :: "'f video_stream \<Rightarrow> 'f video_stream" where
  "stop s = (case video_stream_type s of Cv2 \<Rightarrow> stop_cv2 s | Vlc \<Rightarrow> stop_vlc s)"

text \<open>
  \<^verbatim>\<open>reconnect\<close> (lines 249-269, and 159-179 of the \<^verbatim>\<open>vlc\<close> class). The \<^verbatim>\<open>cv2\<close> method
  opens new captures until one is open, which may go on for ever: \<open>reconnect_begin\<close> is the
  part before that loop, and \<open>reconnect\<close> is the whole method when the loop ends. The
  \<^verbatim>\<open>vlc\<close> method has no such loop. The two reports are those of the capture opened by
  \<^verbatim>\<open>reconnect\<close> itself and of the one opened by \<^verbatim>\<open>start\<close>, when each of them runs
  \<^verbatim>\<open>init_src\<close>.
\<close>

definition reconnect_begin :: "'f video_stream \<Rightarrow> 'f video_stream" where
  "reconnect_begin s =
     (case video_stream_type s of
        Cv2 \<Rightarrow> (let s1 = s\<lparr>stream := Released\<rparr>
                in if more_frames s1 then s1\<lparr>Q := clear (Q s1)\<rparr> else s1)
      | Vlc \<Rightarrow> (let s1 = (if more_frames s then s\<lparr>Q := clear (Q s)\<rparr> else s)
                in s1\<lparr>vlc_player := Some Opened\<rparr>))"

definition reconnect :: "probe \<Rightarrow> probe \<Rightarrow> 'f video_stream \<Rightarrow> 'f video_stream" where
  "reconnect p p' s =
     (let s1 = reconnect_begin s;
          s2 = (case video_stream_type s1 of Cv2 \<Rightarrow> s1\<lparr>stream := Opened\<rparr> | Vlc \<Rightarrow> s1);
          s3 = (if \<not> inited s2 then init_src p s2 else s2)
      in start p' (s3\<lparr>pauseTime := None\<rparr>))"

subsection \<open>The acquisition loop \<^verbatim>\<open>get\<close>\<close>

text \<open>
  A frame of the loop is an array of rows of pixels; \<^verbatim>\<open>frame[t:b, l:r]\<close> slices the rows
  and then each row, a negative bound counting from the end and every bound clipped.
\<close>

definition slice_bound :: "nat \<Rightarrow> int \<Rightarrow> nat" where
  "slice_bound n i = (if i < 0 then nat (max (i + int n) 0) else min (nat i) n)"

definition py_slice :: "int \<Rightarrow> int \<Rightarrow> 'a list \<Rightarrow> 'a list" where
  "py_slice lo hi xs =
     (let a = slice_bound (length xs) lo; b = slice_bound (length xs) hi
      in take (b - a) (drop a xs))"

definition crop :: "int list option \<Rightarrow> 'p list list \<Rightarrow> py_error + 'p list list" where
  "crop c frame =
     (case c of
        None \<Rightarrow> Inr frame
      | Some xs \<Rightarrow>
          (case unpack4 xs of
             Inl e \<Rightarrow> Inl e
           | Inr (l, t, r, b) \<Rightarrow> Inr (map (py_slice l r) (py_slice t b frame))))"

text \<open>
  What one iteration of the loop receives from outside: the result of the capture
  (\<^verbatim>\<open>stream.read()\<close>, or the snapshot of the player and the image read back, which is
  taken to be an array when the snapshot succeeded), and the values of the five calls of
  \<^verbatim>\<open>time.time()\<close>, each used only when its call is reached.
\<close>

datatype 'p capture = Grabbed "'p list list" | Not_grabbed | Raised

record 'p tick =
  capture :: "'p capture"
  t_pause :: rat
  t_print :: rat
  t_since_pause :: rat
  t_since_print :: rat
  t_reprint :: rat

text \<open>
  How an iteration ends: with \<^verbatim>\<open>continue\<close> or by reaching the end of the body, with
  \<^verbatim>\<open>break\<close>, with \<^verbatim>\<open>break\<close> after \<^verbatim>\<open>reconnect_start()\<close> has started the reconnecting
  thread, or with an exception that no handler catches.
\<close>

datatype control = Continue | Break | Break_reconnect | Died

text \<open>
  The block under \<^verbatim>\<open>if not grabbed\<close> (lines 181-216; lines 104-139 of the \<^verbatim>\<open>vlc\<close> class
  are the same), which is outside the \<^verbatim>\<open>try\<close>, in its three parts: the start of the
  countdown at the first failure (lines 182-189), the message once a second, which moves
  \<open>printTime\<close> (lines 192-201), and the decision when the countdown has run out
  (lines 203-216). Subtracting a timer that is \<^verbatim>\<open>None\<close> raises a \<^verbatim>\<open>TypeError\<close> that
  nothing catches.
\<close>

definition start_countdown :: "'p tick \<Rightarrow> 'f video_stream \<Rightarrow> 'f video_stream" where
  "start_countdown tk s =
     (if pauseTime s = None
      then s\<lparr>pauseTime := Some (t_pause tk), printTime := Some (t_print tk)\<rparr>
      else s)"

definition print_countdown :: "'p tick \<Rightarrow> rat \<Rightarrow> rat \<Rightarrow> 'f video_stream \<Rightarrow> 'f video_stream" where
  "print_countdown tk countdown_time prt s =
     (let time_since_print = t_since_print tk - prt
      in if time_since_print > 1 \<and> countdown_time \<ge> 0
         then s\<lparr>printTime := Some (t_reprint tk)\<rparr> else s)"

definition expire :: "rat \<Rightarrow> 'f video_stream \<Rightarrow> control \<times> 'f video_stream" where
  "expire countdown_time s =
     (if countdown_time \<le> 0 then
        (if do_reconnect s then (Break_reconnect, s)
         else if \<not> more_frames s then (Break, stop s)
         else (Continue, s\<lparr>sleeps := 1 # sleeps s\<rparr>))
      else (Continue, s))"

definition countdown :: "'p tick \<Rightarrow> 'f video_stream \<Rightarrow> control \<times> 'f video_stream" where
  "countdown tk s =
     (let s1 = start_countdown tk s
      in case (pauseTime s1, printTime s1) of
           (Some pt, Some prt) \<Rightarrow>
             (let time_since_pause = t_since_pause tk - pt;
                  countdown_time = reconnect_threshold_sec s1 - time_since_pause
              in expire countdown_time (print_countdown tk countdown_time prt s1))
         | _ \<Rightarrow> (Died, s1))"

text \<open>
  The part of the body after a frame has been grabbed (lines 163-175; lines 91-98 of the
  \<^verbatim>\<open>vlc\<close> class, which has no recorder here): crop, insert at the left end, sleep
  \<^verbatim>\<open>1 / self.fps\<close>. Writing to the recorder changes nothing of the object and swallows its
  own exceptions. An exception of the crop or of the sleep (no frame rate, a frame rate
  of zero, a negative one) is caught and makes the iteration a failed one; the frame is
  in the deque by then when it is the sleep that raised.
\<close>

definition pace :: "'p list list video_stream \<Rightarrow> py_error + 'p list list video_stream" where
  "pace s =
     (case fps s of
        None \<Rightarrow> Inl TypeError
      | Some f \<Rightarrow> if f = 0 then Inl ZeroDivisionError
                  else if f < 0 then Inl ValueError
                  else Inr (s\<lparr>sleeps := 1 / of_int f # sleeps s\<rparr>))"

definition grabbed_frame :: "'p tick \<Rightarrow> 'p list list \<Rightarrow> 'p list list video_stream \<Rightarrow> control \<times> 'p list list video_stream" where
  "grabbed_frame tk frame s =
     (case crop (frame_crop s) frame of
        Inl e \<Rightarrow> countdown tk s
      | Inr fr \<Rightarrow>
          (let s1 = s\<lparr>Q := appendleft fr (Q s)\<rparr>
           in case pace s1 of
                Inl e \<Rightarrow> countdown tk s1
              | Inr s2 \<Rightarrow> (Continue, s2\<lparr>pauseTime := None\<rparr>)))"

text \<open>
  The body of the loop of the \<^verbatim>\<open>cv2\<close> class (lines 154-218), with the pause of the
  producer when the deque holds more than \<open>max_cache\<close> frames, and of the \<^verbatim>\<open>vlc\<close> class
  (lines 86-141), which has no such pause.
\<close>

definition get_body_cv2 :: "'p tick \<Rightarrow> 'p list list video_stream \<Rightarrow> control \<times> 'p list list video_stream" where
  "get_body_cv2 tk s =
     (if int (len (Q s)) > max_cache s then (Continue, s\<lparr>sleeps := 1 / 100 # sleeps s\<rparr>)
      else case capture tk of
             Grabbed frame \<Rightarrow> grabbed_frame tk frame s
           | Not_grabbed \<Rightarrow> countdown tk s
           | Raised \<Rightarrow> countdown tk s)"

definition get_body_vlc :: "'p tick \<Rightarrow> 'p list list video_stream \<Rightarrow> control \<times> 'p list list video_stream" where
  "get_body_vlc tk s =
     (case capture tk of
        Grabbed frame \<Rightarrow> grabbed_frame tk frame s
      | Not_grabbed \<Rightarrow> countdown tk s
      | Raised \<Rightarrow> countdown tk s)"

definition get_body :: "'p tick \<Rightarrow> 'p list list video_stream \<Rightarrow> control \<times> 'p list list video_stream" where
  "get_body tk s = (case video_stream_type s of Cv2 \<Rightarrow> get_body_cv2 tk s | Vlc \<Rightarrow> get_body_vlc tk s)"

text \<open>
  \<^verbatim>\<open>while not self.stopped\<close>, run on the inputs of finitely many iterations. The result
  is \<open>Continue\<close> when the loop is still running after them, and says how the loop ended
  otherwise (\<open>Break\<close> also when the loop condition ended it).
\<close>

fun get_loop :: "'p tick list \<Rightarrow> 'p list list video_stream \<Rightarrow> control \<times> 'p list list video_stream" where
  "get_loop [] s = (if stopped s then (Break, s) else (Continue, s))"
| "get_loop (tk # tks) s =
     (if stopped s then (Break, s)
      else case get_body tk s of
             (Continue, s') \<Rightarrow> get_loop tks s'
           | (c, s') \<Rightarrow> (c, s'))"

text \<open>
  \<^verbatim>\<open>get\<close>: the \<^verbatim>\<open>vlc\<close> class makes a new player before the loop (lines 78-83).
\<close>

definition get :: "'p tick list \<Rightarrow> 'p list list video_stream \<Rightarrow> control \<times> 'p list list video_stream" where
  "get tks s =
     (case video_stream_type s of
        Cv2 \<Rightarrow> get_loop tks s
      | Vlc \<Rightarrow> get_loop tks (s\<lparr>vlc_player := Some Opened\<rparr>))"

section \<open>\<^verbatim>\<open>video_manager.VideoManager\<close>\<close>

text \<open>
  The manager keeps its streams in the order of the configuration, each with its name
  (in the source, a dictionary with the keys \<^verbatim>\<open>video_feed_name\<close> and \<^verbatim>\<open>stream\<close>).
\<close>

record 'f video_manager =
  max_height :: "int option"
  num_vid_streams :: nat
  mgr_stopped :: bool
  videos :: "(string \<times> 'f video_stream) list"

text \<open>
  The keyword arguments that a caller may give: \<open>None\<close> is an argument that is absent.
  \<^verbatim>\<open>queue_size\<close> may be given as \<^verbatim>\<open>None\<close>, which is \<open>Some None\<close> here.
\<close>

record manager_kwargs =
  kw_queue_size :: "int option option"
  kw_recording_dir :: "string option"
  kw_reconnect_threshold_sec :: "rat option"
  kw_do_reconnect :: "bool option"
  kw_max_height :: "int option"
  kw_method :: "string option"
  kw_frame_crop :: "int list option"
  kw_rtsp_tcp :: "bool option"

definition no_kwargs :: manager_kwargs where
  "no_kwargs =
     \<lparr>kw_queue_size = None, kw_recording_dir = None, kw_reconnect_threshold_sec = None,
      kw_do_reconnect = None, kw_max_height = None, kw_method = None, kw_frame_crop = None,
      kw_rtsp_tcp = None\<rparr>"

text \<open>
  The arguments that \<^verbatim>\<open>__init__\<close> passes to every \<^verbatim>\<open>VideoStream\<close> (lines 79-90), after its
  own defaults (lines 46-53). No resize hook and no \<^verbatim>\<open>max_cache\<close> are passed.
\<close>

definition stream_kwargs_of :: "manager_kwargs \<Rightarrow> 'f stream_kwargs" where
  "stream_kwargs_of kw =
     \<lparr>queue_size = (case kw_queue_size kw of None \<Rightarrow> Some 3 | Some q \<Rightarrow> q),
      recording_dir = kw_recording_dir kw,
      threshold_arg =
        of_int (py_int (case kw_reconnect_threshold_sec kw of None \<Rightarrow> 20 | Some t \<Rightarrow> t)),
      do_reconnect_arg = (case kw_do_reconnect kw of None \<Rightarrow> True | Some d \<Rightarrow> d),
      resize_fn_arg = None,
      frame_crop_arg = kw_frame_crop kw,
      rtsp_tcp = (case kw_rtsp_tcp kw of None \<Rightarrow> True | Some u \<Rightarrow> u),
      max_cache_arg = 10\<rparr>"

text \<open>
  The loop of \<^verbatim>\<open>__init__\<close> (lines 78-92). The three lists have one length when it runs;
  the list of frame rates is indexed without a check.
\<close>

fun make_streams ::
  "backend \<Rightarrow> 'f stream_kwargs \<Rightarrow> string list \<Rightarrow> string list \<Rightarrow> source list \<Rightarrow> rat list
     \<Rightarrow> py_error + (string \<times> 'f video_stream) list"
where
  "make_streams b kw [] ts ps fs = Inr []"
| "make_streams b kw (n # ns) (t # ts) (p # ps) (f # fs) =
     (case VideoStream_init b n t p (py_int f) kw of
        Inl e \<Rightarrow> Inl e
      | Inr s \<Rightarrow>
          (case make_streams b kw ns ts ps fs of
             Inl e \<Rightarrow> Inl e
           | Inr vs \<Rightarrow> Inr ((n, s) # vs)))"
| "make_streams b kw (n # ns) ts ps fs = Inl IndexError"

definition VideoManager_init ::
  "string list \<Rightarrow> string list \<Rightarrow> source list \<Rightarrow> rat list \<Rightarrow> manager_kwargs
     \<Rightarrow> py_error + 'f video_manager"
where
  "VideoManager_init video_feed_names source_types streams manual_fps kw =
     (if \<not> (length streams = length source_types \<and> length source_types = length video_feed_names)
      then Inl AssertionError
      else case make_streams (if kw_method kw = Some ''vlc'' then Vlc else Cv2)
                  (stream_kwargs_of kw) video_feed_names source_types streams manual_fps of
             Inl e \<Rightarrow> Inl e
           | Inr vs \<Rightarrow>
               Inr \<lparr>max_height = kw_max_height kw, num_vid_streams = length streams,
                    mgr_stopped = True, videos = vs\<rparr>)"

subsection \<open>\<^verbatim>\<open>from_list_file\<close>\<close>

text \<open>
  \<^verbatim>\<open>str.strip\<close>, \<^verbatim>\<open>str.split(sep)\<close>, \<^verbatim>\<open>str.split(sep, 1)\<close> and \<^verbatim>\<open>int(str)\<close> on strings whose
  characters are the code points below 256. The characters that \<^verbatim>\<open>strip\<close> and \<^verbatim>\<open>int\<close>
  remove at both ends are those of \<^verbatim>\<open>str.isspace\<close>: the code points 9 to 13, 28 to 32,
  133 (U+0085) and 160 (U+00A0). The decimal digits among these code points are 0 to 9.
\<close>

definition is_space :: "char \<Rightarrow> bool" where
  "is_space c =
     (let n = of_char c :: nat
      in (9 \<le> n \<and> n \<le> 13) \<or> (28 \<le> n \<and> n \<le> 32) \<or> n = 133 \<or> n = 160)"

definition strip :: "string \<Rightarrow> string" where
  "strip s = rev (dropWhile is_space (rev (dropWhile is_space s)))"

fun split_on :: "char \<Rightarrow> string \<Rightarrow> string list" where
  "split_on c [] = [[]]"
| "split_on c (x # xs) =
     (if x = c then [] # split_on c xs
      else (case split_on c xs of [] \<Rightarrow> [[x]] | w # ws \<Rightarrow> (x # w) # ws))"

fun split_first :: "char \<Rightarrow> string \<Rightarrow> (string \<times> string) option" where
  "split_first c [] = None"
| "split_first c (x # xs) =
     (if x = c then Some ([], xs)
      else (case split_first c xs of None \<Rightarrow> None | Some (a, b) \<Rightarrow> Some (x # a, b)))"

definition is_digit :: "char \<Rightarrow> bool" where
  "is_digit c = (let n = of_char c :: nat in 48 \<le> n \<and> n \<le> 57)"

fun grouped_digits :: "string \<Rightarrow> bool" where
  "grouped_digits [] = False"
| "grouped_digits [c] = is_digit c"
| "grouped_digits (c # d # cs) =
     (is_digit c \<and> (if d = CHR ''_'' then grouped_digits cs else grouped_digits (d # cs)))"

definition digits_value :: "string \<Rightarrow> int" where
  "digits_value cs =
     foldl (\<lambda>a c. 10 * a + (int (of_char c) - 48)) 0 (filter (\<lambda>c. c \<noteq> CHR ''_'') cs)"

definition int_of_str :: "string \<Rightarrow> py_error + int" where
  "int_of_str s =
     (let t = strip s;
          neg = (t \<noteq> [] \<and> hd t = CHR ''-'');
          body = (if t \<noteq> [] \<and> (hd t = CHR ''-'' \<or> hd t = CHR ''+'') then tl t else t)
      in if grouped_digits body
         then Inr (if neg then - digits_value body else digits_value body)
         else Inl ValueError)"

text \<open>
  The constructor \<^verbatim>\<open>set\<close> takes at most one argument, an iterable; of a string it makes
  the set of its characters, each a string of length one.
\<close>

definition py_set :: "string list \<Rightarrow> py_error + string set" where
  "py_set args =
     (case args of
        [] \<Rightarrow> Inr {}
      | [a] \<Rightarrow> Inr ((\<lambda>c. [c]) ` set a)
      | _ \<Rightarrow> Inl TypeError)"

text \<open>
  What the parser asks of its surroundings: whether a path is a file, and \<^verbatim>\<open>float\<close> of a
  string (\<open>None\<close> when \<^verbatim>\<open>float\<close> raises \<^verbatim>\<open>ValueError\<close>, and also when it returns an
  infinity or a NaN, on which \<^verbatim>\<open>int\<close> raises in \<^verbatim>\<open>__init__\<close>: no manager is returned in
  either case).
\<close>

record env =
  is_file :: "string \<Rightarrow> bool"
  float_of_str :: "string \<Rightarrow> rat option"

text \<open>The five variables that the loop over the lines builds (lines 115-119).\<close>

record listing =
  video_feed_names :: "string list"
  streams :: "source list"
  source_types :: "string list"
  manual_fps :: "rat list"
  pure_files_only :: bool

definition empty_listing :: listing where
  "empty_listing =
     \<lparr>video_feed_names = [], streams = [], source_types = [], manual_fps = [],
      pure_files_only = True\<rparr>"

text \<open>
  The branches on the type of the source (lines 130-146): the path of the video, and
  whether \<open>pure_files_only\<close> is left as it is (the \<^verbatim>\<open>usb\<close> branch and the last branch set
  it to \<^verbatim>\<open>False\<close>). In the last branch the condition of the assertion calls \<^verbatim>\<open>set\<close> with
  three arguments.
\<close>

definition video_path_of :: "env \<Rightarrow> string \<Rightarrow> string \<Rightarrow> string \<Rightarrow> py_error + (source \<times> bool)" where
  "video_path_of ev stype path url =
     (if stype = ''usb'' then
        (case int_of_str path of
           Inl e \<Rightarrow> Inl e
         | Inr n \<Rightarrow> Inr (Device n, False))
      else if stype = ''file'' then
        (if is_file ev path then Inr (Location path, True) else Inl AssertionError)
      else
        (case py_set [''rtsp'', ''http'', ''https''] of
           Inl e \<Rightarrow> Inl e
         | Inr supported \<Rightarrow>
             if stype \<in> supported then Inr (Location url, False) else Inl AssertionError))"

text \<open>
  The frame rate of the line (lines 149-153); \<open>rest\<close> is what follows the first two
  fields, so it has one entry when \<^verbatim>\<open>len(splits) == 3\<close>.
\<close>

definition manual_fps_of :: "env \<Rightarrow> string list \<Rightarrow> py_error + rat" where
  "manual_fps_of ev rest =
     (case rest of
        [third] \<Rightarrow> (case float_of_str ev third of None \<Rightarrow> Inl ValueError | Some rate \<Rightarrow> Inr rate)
      | _ \<Rightarrow> Inr (-1))"

text \<open>
  The body of the loop (lines 122-154) on one line of the file: \<open>name\<close> is \<^verbatim>\<open>splits[0]\<close>
  and \<open>url\<close> is \<^verbatim>\<open>splits[1]\<close>, which raises when the line has no comma. The four lists
  grow by one entry each; an exception leaves no result at all.
\<close>

definition startswith :: "string \<Rightarrow> string \<Rightarrow> bool" where
  "startswith l p = (take (length p) l = p)"

definition parse_line :: "env \<Rightarrow> listing \<Rightarrow> string \<Rightarrow> py_error + listing" where
  "parse_line ev acc line =
     (let l = strip line in
      if startswith l ''#'' then Inr acc
      else
        (case split_on CHR '','' l of
           name # url # rest \<Rightarrow>
             (case split_first CHR '':'' url of
                None \<Rightarrow> Inl ValueError
              | Some (stype, path) \<Rightarrow>
                  (case video_path_of ev stype path url of
                     Inl e \<Rightarrow> Inl e
                   | Inr (video_path, keep) \<Rightarrow>
                       (case manual_fps_of ev rest of
                          Inl e \<Rightarrow> Inl e
                        | Inr rate \<Rightarrow>
                            Inr \<lparr>video_feed_names = video_feed_names acc @ [name],
                                 streams = streams acc @ [video_path],
                                 source_types = source_types acc @ [stype],
                                 manual_fps = manual_fps acc @ [rate],
                                 pure_files_only = (pure_files_only acc \<and> keep)\<rparr>)))
         | _ \<Rightarrow> Inl IndexError))"

fun parse_lines :: "env \<Rightarrow> listing \<Rightarrow> string list \<Rightarrow> py_error + listing" where
  "parse_lines ev acc [] = Inr acc"
| "parse_lines ev acc (l # ls) =
     (case parse_line ev acc l of Inl e \<Rightarrow> Inl e | Inr acc' \<Rightarrow> parse_lines ev acc' ls)"

text \<open>
  \<^verbatim>\<open>from_list_file\<close> (lines 95-158) on the lines that \<^verbatim>\<open>readlines\<close> returns.
\<close>

definition from_list_file :: "env \<Rightarrow> string list \<Rightarrow> manager_kwargs \<Rightarrow> py_error + 'f video_manager" where
  "from_list_file ev file_lines kwargs =
     (case parse_lines ev empty_listing file_lines of
        Inl e \<Rightarrow> Inl e
      | Inr acc \<Rightarrow>
          (let kwargs' = (if pure_files_only acc \<and> kw_queue_size kwargs = None
                          then kwargs\<lparr>kw_queue_size := Some None\<rparr> else kwargs)
           in VideoManager_init (video_feed_names acc) (source_types acc) (streams acc)
                (manual_fps acc) kwargs'))"

subsection \<open>\<^verbatim>\<open>start\<close>, \<^verbatim>\<open>stop\<close>, the checks and \<^verbatim>\<open>read\<close> of the manager\<close>

definition VideoManager_stop :: "'f video_manager \<Rightarrow> 'f video_manager" where
  "VideoManager_stop m =
     (if \<not> mgr_stopped m
      then m\<lparr>mgr_stopped := True, videos := map (\<lambda>(n, s). (n, stop s)) (videos m)\<rparr>
      else m)"

text \<open>Every stream is started with what its own capture reports.\<close>

definition VideoManager_start :: "(string \<Rightarrow> probe) \<Rightarrow> 'f video_manager \<Rightarrow> 'f video_manager" where
  "VideoManager_start pr m =
     (if mgr_stopped m
      then m\<lparr>videos := map (\<lambda>(n, s). (n, start (pr n) s)) (videos m), mgr_stopped := False\<rparr>
      else m)"

definition check_all_stopped :: "'f video_manager \<Rightarrow> bool" where
  "check_all_stopped m = list_all (\<lambda>(n, s). stopped s) (videos m)"

definition check_any_stopped :: "'f video_manager \<Rightarrow> bool" where
  "check_any_stopped m = list_ex (\<lambda>(n, s). stopped s) (videos m)"

text \<open>
  \<^verbatim>\<open>VideoManager.read\<close> (lines 208-219). An entry of the result is the empty list that
  marks a stream without a frame, or what \<^verbatim>\<open>read\<close> of the stream returned.
\<close>

datatype 'f entry = Empty_marker | Frame "'f option"

fun read_videos ::
  "(string \<times> 'f video_stream) list \<Rightarrow> py_error + ('f entry list \<times> (string \<times> 'f video_stream) list)"
where
  "read_videos [] = Inr ([], [])"
| "read_videos ((n, s) # vs) =
     (if \<not> more_frames s then
        (case read_videos vs of
           Inl e \<Rightarrow> Inl e
         | Inr (frames, vs') \<Rightarrow> Inr (Empty_marker # frames, (n, s) # vs'))
      else
        (case read s of
           Inl e \<Rightarrow> Inl e
         | Inr (frame, s') \<Rightarrow>
             (case read_videos vs of
                Inl e \<Rightarrow> Inl e
              | Inr (frames, vs') \<Rightarrow> Inr (Frame frame # frames, (n, s') # vs'))))"

definition VideoManager_read :: "'f video_manager \<Rightarrow> py_error + ('f entry list \<times> 'f video_manager)" where
  "VideoManager_read m =
     (case read_videos (videos m) of
        Inl e \<Rightarrow> Inl e
      | Inr (frames, vs) \<Rightarrow> Inr (frames, m\<lparr>videos := vs\<rparr>))"

text \<open>
  The acquisition thread of the stream at position \<open>i\<close>, seen from the manager: the thread
  runs a method of its own stream object, which holds no reference to the manager or to
  another stream.
\<close>

definition worker_get :: "nat \<Rightarrow> 'p tick list \<Rightarrow> 'p list list video_manager \<Rightarrow> 'p list list video_manager" where
  "worker_get i tks m =
     (if i < length (videos m)
      then m\<lparr>videos := (videos m)[i := (fst (videos m ! i), snd (get tks (snd (videos m ! i))))]\<rparr>
      else m)"

section \<open>Notions used to state the properties\<close>

text \<open>
  Line 167 of the loop, \<^verbatim>\<open>self.Q.appendleft(frame)\<close>, run on a list of frames in order and
  with no read in between; \<open>n\<close> calls of \<^verbatim>\<open>read\<close> in a row, with what they returned; what
  \<^verbatim>\<open>read\<close> returns for a frame \<open>x\<close> that it pops.
\<close>

definition insert_frames :: "'f list \<Rightarrow> 'f video_stream \<Rightarrow> 'f video_stream" where
  "insert_frames fs s = fold (\<lambda>f s. s\<lparr>Q := appendleft f (Q s)\<rparr>) fs s"

fun read_n :: "nat \<Rightarrow> 'f video_stream \<Rightarrow> py_error + ('f option list \<times> 'f video_stream)" where
  "read_n 0 s = Inr ([], s)"
| "read_n (Suc n) s =
     (case read s of
        Inl e \<Rightarrow> Inl e
      | Inr (f, s') \<Rightarrow>
          (case read_n n s' of Inl e \<Rightarrow> Inl e | Inr (fs, s'') \<Rightarrow> Inr (f # fs, s'')))"

definition delivered :: "'f video_stream \<Rightarrow> 'f \<Rightarrow> 'f option" where
  "delivered s x = (case resize_fn s of None \<Rightarrow> Some x | Some r \<Rightarrow> r (Some x))"

text \<open>
  The words of the specification, "the k-th through (N+k)-th inserted": the entries of a
  list from the \<open>i\<close>-th to the \<open>j\<close>-th, both included and counted from one.
\<close>

definition kth_through :: "nat \<Rightarrow> nat \<Rightarrow> 'a list \<Rightarrow> 'a list" where
  "kth_through i j xs = take (j + 1 - i) (drop (i - 1) xs)"

text \<open>A stream as the constructor makes it, for the examples.\<close>

definition cam1 :: "backend \<Rightarrow> int \<Rightarrow> 'f stream_kwargs \<Rightarrow> 'f video_stream" where
  "cam1 b manual kw = projr (VideoStream_init b ''cam1'' ''rtsp'' (Location ''rtsp://h/s'') manual kw)"

text \<open>
  The stream after \<^verbatim>\<open>read\<close> has popped the frame at the right end of the deque, which is
  the oldest one, and a resize hook for the examples.
\<close>

definition popped :: "'f video_stream \<Rightarrow> 'f video_stream" where
  "popped s =
     s\<lparr>Q := (Q s)\<lparr>items := butlast (items (Q s))\<rparr>,
       currentFrame := delivered s (last (items (Q s)))\<rparr>"

definition halve :: "nat option \<Rightarrow> nat option" where
  "halve x = map_option (\<lambda>n. n div 2) x"

text \<open>A manager of two streams, the first with two frames in its buffer, the second with none.\<close>

definition two_cams :: "string video_manager" where
  "two_cams =
     \<lparr>max_height = None, num_vid_streams = 2, mgr_stopped = False,
      videos = [(''a'', insert_frames [''F1'', ''F2''] (cam1 Cv2 (-1) default_kwargs)),
                (''b'', cam1 Cv2 (-1) default_kwargs)]\<rparr>"

text \<open>More streams, capture reports and a file system for the examples.\<close>

definition one_frame :: "string video_stream" where
  "one_frame = insert_frames [''F1''] (cam1 Cv2 (-1) default_kwargs)"

definition webcam :: probe where
  "webcam = \<lparr>cap_fps = 0, cap_width = 640, cap_height = 480\<rparr>"

definition camera25 :: probe where
  "camera25 = \<lparr>cap_fps = 25, cap_width = 640, cap_height = 480\<rparr>"

definition some_files :: env where
  "some_files =
     \<lparr>is_file = (\<lambda>p. p = ''a.mp4'' \<or> p = ''b.mp4''),
      float_of_str = (\<lambda>s. if s = ''25'' then Some 25 else None)\<rparr>"

text \<open>
  A line that the loop skips (line 123, after the \<^verbatim>\<open>strip\<close> of line 122), and the relation
  between the five variables of the loop: the four lists have one length, and
  \<open>pure_files_only\<close> says that every type read so far is \<^verbatim>\<open>file\<close>.
\<close>

definition is_comment :: "string \<Rightarrow> bool" where
  "is_comment l = startswith (strip l) ''#''"

definition consistent :: "listing \<Rightarrow> bool" where
  "consistent acc =
     (length (source_types acc) = length (video_feed_names acc) \<and>
      length (streams acc) = length (video_feed_names acc) \<and>
      length (manual_fps acc) = length (video_feed_names acc) \<and>
      pure_files_only acc = list_all (\<lambda>t. t = ''file'') (source_types acc))"

text \<open>Two descriptor files and the managers made from them, for the examples.\<close>

definition all_files_list :: "string list" where
  "all_files_list = [''x,file:a.mp4,25'', ''# a comment'', ''y,file:b.mp4'']"

definition mixed_list :: "string list" where
  "mixed_list = [''x,file:a.mp4,25'', ''y,usb:1'']"

definition files_manager :: "nat video_manager" where
  "files_manager = projr (from_list_file some_files all_files_list no_kwargs)"

definition mixed_manager :: "nat video_manager" where
  "mixed_manager = projr (from_list_file some_files mixed_list no_kwargs)"

text \<open>
  An iteration that grabs a frame of two rows, and a stream of either class after
  \<^verbatim>\<open>start\<close> on a source that reports 25 frames per second.
\<close>

definition good_tick :: "nat tick" where
  "good_tick =
     \<lparr>capture = Grabbed [[1, 2], [3, 4]], t_pause = 0, t_print = 0, t_since_pause = 0,
      t_since_print = 0, t_reprint = 0\<rparr>"

definition started :: "backend \<Rightarrow> nat list list video_stream" where
  "started b = start camera25 (cam1 b (-1) default_kwargs)"


text \<open>
  The session of the backend has been released: the capture of the \<^verbatim>\<open>cv2\<close> class, the
  player of the \<^verbatim>\<open>vlc\<close> class. An iteration whose capture fails. A stream that is counting
  down since \<open>p\<close> with reconnection disabled and nothing in its buffer.
\<close>

definition session_released :: "'f video_stream \<Rightarrow> bool" where
  "session_released s =
     (case video_stream_type s of
        Cv2 \<Rightarrow> stream s = Released
      | Vlc \<Rightarrow> vlc_player s = Some Released)"

definition failed :: "'p tick \<Rightarrow> bool" where
  "failed tk = (case capture tk of Grabbed frame \<Rightarrow> False | Not_grabbed \<Rightarrow> True | Raised \<Rightarrow> True)"

definition counting_down :: "rat \<Rightarrow> 'f video_stream \<Rightarrow> bool" where
  "counting_down p s =
     (\<not> stopped s \<and> \<not> do_reconnect s \<and> \<not> more_frames s \<and> pauseTime s = Some p \<and>
      printTime s \<noteq> None \<and> (video_stream_type s = Cv2 \<longrightarrow> 0 \<le> max_cache s) \<and>
      (video_stream_type s = Vlc \<longrightarrow> vlc_player s \<noteq> None))"

text \<open>
  The calls that can reach a stream other than \<^verbatim>\<open>start\<close> and \<^verbatim>\<open>reconnect\<close> (which calls
  \<^verbatim>\<open>start\<close>), and what each does to the stream.
\<close>

datatype 'p call = Call_read | Call_stop | Call_init_src probe | Call_get "'p tick list"

fun perform :: "'p call \<Rightarrow> 'p list list video_stream \<Rightarrow> 'p list list video_stream" where
  "perform Call_read s = (case read s of Inl e \<Rightarrow> s | Inr (f, s') \<Rightarrow> s')"
| "perform Call_stop s = stop s"
| "perform (Call_init_src p) s = init_src p s"
| "perform (Call_get tks) s = snd (get tks s)"

text \<open>
  An iteration at time \<open>t\<close> whose capture fails, a started stream with reconnection
  disabled, and a manager of that stream and another.
\<close>

definition fail_tick :: "rat \<Rightarrow> nat tick" where
  "fail_tick t =
     \<lparr>capture = Not_grabbed, t_pause = t, t_print = t, t_since_pause = t, t_since_print = t,
      t_reprint = t\<rparr>"

definition no_reconnect_cam :: "nat list list video_stream" where
  "no_reconnect_cam = start camera25 (cam1 Cv2 (-1) (default_kwargs\<lparr>do_reconnect_arg := False\<rparr>))"

definition two_workers :: "nat list list video_manager" where
  "two_workers =
     \<lparr>max_height = None, num_vid_streams = 2, mgr_stopped = False,
      videos = [(''cam1'', no_reconnect_cam), (''cam2'', started Cv2)]\<rparr>"

text \<open>
  The states of a stream that its methods can produce from the constructor on, one call
  or one iteration of the loop at a time. An iteration runs only when the loop condition
  \<^verbatim>\<open>not self.stopped\<close> holds.
\<close>

inductive reachable :: "'p list list video_stream \<Rightarrow> bool" where
  constructed: "VideoStream_init b name t path manual kw = Inr s \<Longrightarrow> reachable s"
| started: "reachable s \<Longrightarrow> reachable (start p s)"
| stop_called: "reachable s \<Longrightarrow> reachable (stop s)"
| initialised: "reachable s \<Longrightarrow> reachable (init_src p s)"
| read_called: "reachable s \<Longrightarrow> read s = Inr (f, s') \<Longrightarrow> reachable s'"
| iteration: "reachable s \<Longrightarrow> \<not> stopped s \<Longrightarrow> get_body tk s = (c, s') \<Longrightarrow> reachable s'"
| player_made: "reachable s \<Longrightarrow> video_stream_type s = Vlc \<Longrightarrow> reachable (s\<lparr>vlc_player := Some Opened\<rparr>)"
| reconnecting: "reachable s \<Longrightarrow> reachable (reconnect_begin s)"
| reconnected: "reachable s \<Longrightarrow> reachable (reconnect p p' s)"

text \<open>A running stream after one iteration that grabbed a frame.\<close>

definition one_grabbed :: "nat list list video_stream" where
  "one_grabbed = snd (get_body good_tick (started Cv2))"

section \<open>The frame buffer\<close>

lemma take_append_take: "take n (xs @ take n ys) = take n (xs @ ys)"
  by (induction xs arbitrary: n) (auto simp: take_Cons split: nat.splits)

lemma insert_frames_fields:
  "maxlen (Q (insert_frames fs s)) = maxlen (Q s)"
  "resize_fn (insert_frames fs s) = resize_fn s"
  by (induction fs arbitrary: s) (simp_all add: insert_frames_def appendleft_def)

lemma items_insert_frames:
  "maxlen (Q s) = Some n \<Longrightarrow> fs \<noteq> [] \<Longrightarrow>
   items (Q (insert_frames fs s)) = take n (rev fs @ items (Q s))"
proof (induction fs arbitrary: s)
  case Nil
  then show ?case by simp
next
  case (Cons f fs)
  let ?s1 = "s\<lparr>Q := appendleft f (Q s)\<rparr>"
  have step: "insert_frames (f # fs) s = insert_frames fs ?s1"
    by (simp add: insert_frames_def)
  have m: "maxlen (Q ?s1) = Some n" and i: "items (Q ?s1) = take n (f # items (Q s))"
    using Cons.prems(1) by (simp_all add: appendleft_def)
  show ?case
  proof (cases "fs = []")
    case True
    then show ?thesis using i by (simp add: insert_frames_def)
  next
    case False
    from Cons.IH[OF m False] show ?thesis
      unfolding step i by (simp add: take_append_take)
  qed
qed

lemma read_nonempty:
  "items (Q s) = xs @ [x] \<Longrightarrow>
   read s = Inr (delivered s x, s\<lparr>Q := (Q s)\<lparr>items := xs\<rparr>, currentFrame := delivered s x\<rparr>)"
  by (simp add: read_def more_frames_def pop_def delivered_def Let_def split: option.splits)

lemma read_n_drains:
  "items (Q s) = xs \<Longrightarrow>
   \<exists>s'. read_n (length xs) s = Inr (map (delivered s) (rev xs), s') \<and> items (Q s') = []"
proof (induction xs arbitrary: s rule: rev_induct)
  case Nil
  then show ?case by simp
next
  case (snoc x xs)
  let ?s1 = "s\<lparr>Q := (Q s)\<lparr>items := xs\<rparr>, currentFrame := delivered s x\<rparr>"
  have r: "read s = Inr (delivered s x, ?s1)" using snoc.prems by (rule read_nonempty)
  have "items (Q ?s1) = xs" by simp
  from snoc.IH[OF this] obtain s' where
    "read_n (length xs) ?s1 = Inr (map (delivered ?s1) (rev xs), s')" "items (Q s') = []" by blast
  moreover have "delivered ?s1 = delivered s" by (rule ext) (simp add: delivered_def)
  ultimately show ?case using r by simp
qed

lemma cam1_default:
  "maxlen (Q (cam1 Cv2 (-1) default_kwargs)) = Some 3"
  "resize_fn (cam1 Cv2 (-1) default_kwargs) = None"
  "items (Q (cam1 Cv2 (-1) default_kwargs)) = []"
  by (simp_all add: cam1_def VideoStream_init_def default_kwargs_def deque_new_def)

text \<open>
  C1, as amended. A buffer of capacity \<open>N \<ge> 1\<close> into which \<open>N + k\<close> frames are inserted
  with no read in between holds exactly \<open>N\<close> frames, and \<open>N\<close> reads return the frames from
  the \<open>(k+1)\<close>-th to the \<open>(N+k)\<close>-th inserted, in the order of insertion (each passed through
  the resize hook when there is one), after which the buffer is empty. With capacity 3
  and F1..F5 the reads return F3, F4, F5.
\<close>

theorem frame_buffer_sliding_window:
  assumes "maxlen (Q s) = Some N" and "1 \<le> N" and "length fs = N + k"
  shows "len (Q (insert_frames fs s)) = N \<and>
         (\<exists>s'. read_n N (insert_frames fs s) = Inr (map (delivered s) (drop k fs), s') \<and>
               \<not> more_frames s')"
proof -
  let ?t = "insert_frames fs s"
  have it: "items (Q ?t) = rev (drop k fs)"
  proof -
    have "fs \<noteq> []" using assms by auto
    from items_insert_frames[OF assms(1) this] show ?thesis
      using assms by (simp add: take_rev)
  qed
  have n: "length (rev (drop k fs)) = N" using assms by simp
  from read_n_drains[OF it] n obtain s' where
    "read_n N ?t = Inr (map (delivered ?t) (rev (rev (drop k fs))), s')" "items (Q s') = []"
    by auto
  moreover have "delivered ?t = delivered s"
    by (rule ext) (simp add: delivered_def insert_frames_fields)
  ultimately show ?thesis using it n by (auto simp: len_def more_frames_def)
qed

theorem frame_buffer_sliding_window_witness:
  "maxlen (Q (cam1 Cv2 (-1) default_kwargs)) = Some 3 \<and> (1::nat) \<le> 3 \<and>
   length [''F1'', ''F2'', ''F3'', ''F4'', ''F5''] = 3 + 2 \<and>
   len (Q (insert_frames [''F1'', ''F2'', ''F3'', ''F4'', ''F5''] (cam1 Cv2 (-1) default_kwargs))) = 3 \<and>
   (\<exists>s'. read_n 3 (insert_frames [''F1'', ''F2'', ''F3'', ''F4'', ''F5''] (cam1 Cv2 (-1) default_kwargs)) =
           Inr ([Some ''F3'', Some ''F4'', Some ''F5''], s') \<and> \<not> more_frames s')"
  using frame_buffer_sliding_window
    [of "cam1 Cv2 (-1) default_kwargs" 3 "[''F1'', ''F2'', ''F3'', ''F4'', ''F5'']" 2]
  by (simp add: cam1_default delivered_def)

text \<open>
  C1 as the specification words it fails: with capacity 3 and \<open>k = 2\<close>, the second to the
  fifth frame are four frames, and the buffer holds the third to the fifth.
\<close>

theorem frame_buffer_kth_counterexample:
  "rev (items (Q (insert_frames [''F1'', ''F2'', ''F3'', ''F4'', ''F5''] (cam1 Cv2 (-1) default_kwargs)))) \<noteq>
     kth_through 2 (3 + 2) [''F1'', ''F2'', ''F3'', ''F4'', ''F5'']"
  by (simp add: kth_through_def insert_frames_def appendleft_def cam1_def VideoStream_init_def
      default_kwargs_def deque_new_def)

section \<open>Reading\<close>

lemma read_more:
  "more_frames s \<Longrightarrow> read s = Inr (delivered s (last (items (Q s))), popped s)"
  by (simp add: read_def more_frames_def pop_def delivered_def popped_def Let_def split: option.splits)

lemma read_videos_eq:
  "read_videos vs =
     Inr (map (\<lambda>(n, s). if more_frames s then Frame (delivered s (last (items (Q s)))) else Empty_marker) vs,
          map (\<lambda>(n, s). (n, if more_frames s then popped s else s)) vs)"
  by (induction vs rule: read_videos.induct) (simp_all add: read_more)

lemma cam1_frames:
  "items (Q (insert_frames [''F1'', ''F2''] (cam1 Cv2 (-1) default_kwargs))) = [''F2'', ''F1'']"
  by (simp add: insert_frames_def appendleft_def cam1_default)

text \<open>
  C2. \<^verbatim>\<open>VideoManager.read\<close> always returns, without an error and without a sleep. Its
  result has one entry for each configured stream, in the order of the configuration:
  for a stream whose buffer has a frame, the oldest frame, passed through the resize hook
  when there is one, and that frame is popped; for a stream whose buffer is empty, the
  empty marker, and that stream is left exactly as it was.
\<close>

theorem VideoManager_read_entries:
  "VideoManager_read m =
     Inr (map (\<lambda>(n, s). if more_frames s then Frame (delivered s (last (items (Q s)))) else Empty_marker)
            (videos m),
          m\<lparr>videos := map (\<lambda>(n, s). (n, if more_frames s then popped s else s)) (videos m)\<rparr>)"
  by (simp add: VideoManager_read_def read_videos_eq)

theorem VideoManager_read_entries_witness:
  "VideoManager_read two_cams =
     Inr ([Frame (Some ''F1''), Empty_marker],
          two_cams\<lparr>videos :=
            [(''a'', popped (insert_frames [''F1'', ''F2''] (cam1 Cv2 (-1) default_kwargs))),
             (''b'', cam1 Cv2 (-1) default_kwargs)]\<rparr>)"
  using VideoManager_read_entries[of two_cams]
  by (simp add: two_cams_def more_frames_def cam1_frames cam1_default delivered_def insert_frames_fields)

lemma cam1_init:
  "VideoStream_init Cv2 ''cam1'' ''rtsp'' (Location ''rtsp://h/s'') (-1) default_kwargs
     = Inr (cam1 Cv2 (-1) default_kwargs)"
  by (simp add: cam1_def VideoStream_init_def default_kwargs_def deque_new_def)

lemma default_arg_facts:
  "resize_fn_arg default_kwargs = None" "frame_crop_arg default_kwargs = None"
  "queue_size default_kwargs = Some 3"
  by (simp_all add: default_kwargs_def)

lemma one_frame_facts:
  "items (Q one_frame) = [''F1'']" "resize_fn one_frame = None"
  "read one_frame = Inr (Some ''F1'', popped one_frame)"
  "\<not> more_frames (popped one_frame)" "resize_fn (popped one_frame) = None"
proof -
  show i: "items (Q one_frame) = [''F1'']"
    by (simp add: one_frame_def insert_frames_def appendleft_def cam1_default)
  show r: "resize_fn one_frame = None"
    by (simp add: one_frame_def insert_frames_fields cam1_default)
  show "read one_frame = Inr (Some ''F1'', popped one_frame)"
    using read_more[of one_frame] i r by (simp add: more_frames_def delivered_def)
  show "\<not> more_frames (popped one_frame)" using i by (simp add: more_frames_def popped_def)
  show "resize_fn (popped one_frame) = None" using r by (simp add: popped_def)
qed

text \<open>
  C10, as amended. On a stream whose buffer is empty and which has no resize hook,
  \<^verbatim>\<open>read\<close> returns \<open>currentFrame\<close> and changes nothing: the frame that the read before
  returned, or \<^verbatim>\<open>None\<close> on a stream as constructed; it raises no error and returns no
  empty marker. The manager tests \<^verbatim>\<open>more\<close> first and gives the empty marker for such a
  stream without calling its \<^verbatim>\<open>read\<close>.
\<close>

theorem read_on_empty_buffer:
  "(\<not> more_frames s \<and> resize_fn s = None \<longrightarrow> read s = Inr (currentFrame s, s)) \<and>
   (read s0 = Inr (f, s) \<and> \<not> more_frames s \<and> resize_fn s0 = None \<longrightarrow> read s = Inr (f, s)) \<and>
   (VideoStream_init b name t p manual kw = Inr s1 \<and> resize_fn_arg kw = None \<longrightarrow> read s1 = Inr (None, s1)) \<and>
   (\<not> more_frames s \<longrightarrow> read_videos [(n, s)] = Inr ([Empty_marker], [(n, s)]))"
proof (intro conjI impI)
  show "read s = Inr (currentFrame s, s)" if "\<not> more_frames s \<and> resize_fn s = None"
    using that by (simp add: read_def)
  show "read s = Inr (f, s)" if "read s0 = Inr (f, s) \<and> \<not> more_frames s \<and> resize_fn s0 = None"
    using that by (auto simp: read_def pop_def split: if_splits)
  show "read s1 = Inr (None, s1)"
    if "VideoStream_init b name t p manual kw = Inr s1 \<and> resize_fn_arg kw = None"
  proof -
    from that have "items (Q s1) = []" and "resize_fn s1 = None" and "currentFrame s1 = None"
      by (auto simp: VideoStream_init_def deque_new_def split: sum.splits if_splits option.splits)
    then show ?thesis by (simp add: read_def more_frames_def)
  qed
  show "read_videos [(n, s)] = Inr ([Empty_marker], [(n, s)])" if "\<not> more_frames s"
    using that by simp
qed

theorem read_on_empty_buffer_witness:
  "\<not> more_frames (popped one_frame) \<and> resize_fn (popped one_frame) = None \<and>
   read one_frame = Inr (Some ''F1'', popped one_frame) \<and> resize_fn one_frame = None \<and>
   VideoStream_init Cv2 ''cam1'' ''rtsp'' (Location ''rtsp://h/s'') (-1) default_kwargs
     = Inr (cam1 Cv2 (-1) default_kwargs :: string video_stream) \<and>
   resize_fn_arg (default_kwargs :: string stream_kwargs) = None \<and>
   read (popped one_frame) = Inr (Some ''F1'', popped one_frame) \<and>
   read (cam1 Cv2 (-1) default_kwargs :: string video_stream) = Inr (None, cam1 Cv2 (-1) default_kwargs) \<and>
   read_videos [(''a'', popped one_frame)] = Inr ([Empty_marker], [(''a'', popped one_frame)])"
proof -
  have h1: "\<not> more_frames (popped one_frame) \<and> resize_fn (popped one_frame) = None"
    by (simp add: one_frame_facts)
  have h2: "read one_frame = Inr (Some ''F1'', popped one_frame) \<and> \<not> more_frames (popped one_frame) \<and>
            resize_fn one_frame = None"
    by (simp add: one_frame_facts)
  have h3: "VideoStream_init Cv2 ''cam1'' ''rtsp'' (Location ''rtsp://h/s'') (-1) default_kwargs
              = Inr (cam1 Cv2 (-1) default_kwargs :: string video_stream) \<and>
            resize_fn_arg (default_kwargs :: string stream_kwargs) = None"
    by (simp add: cam1_init default_arg_facts)
  from read_on_empty_buffer[of "popped one_frame" one_frame "Some ''F1''" Cv2 "''cam1''" "''rtsp''"
      "Location ''rtsp://h/s''" "-1" default_kwargs "cam1 Cv2 (-1) default_kwargs" "''a''"] h1 h2 h3
  show ?thesis by blast
qed

text \<open>
  C10 as stated fails on a stream with a resize hook: the hook is applied to the stale
  frame again. With a hook that halves and the frame 8, the first read delivers 4 and the
  read on the empty buffer returns 2.
\<close>

theorem read_resize_stale_counterexample:
  "map_sum id fst (read_n 2 (insert_frames [8] (cam1 Cv2 (-1) (default_kwargs\<lparr>resize_fn_arg := Some halve\<rparr>))))
     = Inr [Some 4, Some 2]"
  by code_simp

section \<open>Construction and initialisation\<close>

lemma VideoStream_init_fields:
  assumes "VideoStream_init b name t p manual kw = Inr s"
  shows "frame_crop s = frame_crop_arg kw" "resize_fn s = resize_fn_arg kw"
    "items (Q s) = []" "currentFrame s = None" "stopped s" "video_stream_type s = b"
    "manual_video_fps s = (if manual = -1 then None else Some manual)"
    "deque_new (queue_size kw) = Inr (Q s)"
  using assms
  by (auto simp: VideoStream_init_def deque_new_def split: sum.splits if_splits option.splits)

lemma VideoStream_init_succeeds:
  fixes kw :: "'f stream_kwargs" and q :: "'f deque"
  assumes "deque_new (queue_size kw) = Inr q"
    and "\<not> (\<exists>c. frame_crop_arg kw = Some c \<and> length c \<noteq> 4)"
  shows "\<exists>s. VideoStream_init b name t p manual kw = Inr s"
proof -
  have "\<not> (case frame_crop_arg kw of None \<Rightarrow> False | Some c \<Rightarrow> length c \<noteq> 4)"
    using assms(2) by (cases "frame_crop_arg kw") auto
  then show ?thesis by (simp add: VideoStream_init_def assms(1))
qed

text \<open>
  C9, as amended. The constructor checks the length of the crop and nothing else: where
  the deque can be built, a crop that has not exactly four entries is rejected with an
  \<^verbatim>\<open>AssertionError\<close>, and every other crop, whatever its values, is accepted and stored as
  given.
\<close>

theorem frame_crop_only_length_checked:
  fixes kw :: "'f stream_kwargs" and q :: "'f deque"
  assumes "deque_new (queue_size kw) = Inr q"
  shows "((\<exists>c. frame_crop_arg kw = Some c \<and> length c \<noteq> 4) \<longrightarrow>
            VideoStream_init b name t p manual kw = Inl AssertionError) \<and>
         (\<not> (\<exists>c. frame_crop_arg kw = Some c \<and> length c \<noteq> 4) \<longrightarrow>
            (\<exists>s. VideoStream_init b name t p manual kw = Inr s \<and> frame_crop s = frame_crop_arg kw))"
proof (intro conjI impI)
  assume "\<exists>c. frame_crop_arg kw = Some c \<and> length c \<noteq> 4"
  then obtain c where "frame_crop_arg kw = Some c" "length c \<noteq> 4" by blast
  then show "VideoStream_init b name t p manual kw = Inl AssertionError"
    by (simp add: VideoStream_init_def assms)
next
  assume "\<not> (\<exists>c. frame_crop_arg kw = Some c \<and> length c \<noteq> 4)"
  from VideoStream_init_succeeds[OF assms this]
  obtain s where s: "VideoStream_init b name t p manual kw = Inr s" by blast
  from VideoStream_init_fields(1)[OF s] s
  show "\<exists>s. VideoStream_init b name t p manual kw = Inr s \<and> frame_crop s = frame_crop_arg kw"
    by blast
qed

theorem frame_crop_only_length_checked_witness:
  "deque_new (queue_size (default_kwargs :: nat stream_kwargs)) = Inr (\<lparr>items = [], maxlen = Some 3\<rparr> :: nat deque) \<and>
   VideoStream_init Cv2 ''cam1'' ''rtsp'' (Location ''rtsp://h/s'') (-1)
      (default_kwargs\<lparr>frame_crop_arg := Some [0, 0, 640]\<rparr>) = (Inl AssertionError :: py_error + nat video_stream) \<and>
   (\<exists>s :: nat video_stream. VideoStream_init Cv2 ''cam1'' ''rtsp'' (Location ''rtsp://h/s'') (-1)
      (default_kwargs\<lparr>frame_crop_arg := Some [0, 0, 640, 480]\<rparr>) = Inr s \<and> frame_crop s = Some [0, 0, 640, 480])"
proof -
  have q: "deque_new (queue_size (default_kwargs\<lparr>frame_crop_arg := c\<rparr> :: nat stream_kwargs))
             = Inr (\<lparr>items = [], maxlen = Some 3\<rparr> :: nat deque)" for c
    by (simp add: default_kwargs_def deque_new_def)
  from frame_crop_only_length_checked[OF q, of "Some [0, 0, 640]" Cv2 "''cam1''" "''rtsp''" "Location ''rtsp://h/s''" "-1"]
  have a: "VideoStream_init Cv2 ''cam1'' ''rtsp'' (Location ''rtsp://h/s'') (-1)
      (default_kwargs\<lparr>frame_crop_arg := Some [0, 0, 640]\<rparr>) = (Inl AssertionError :: py_error + nat video_stream)"
    by simp
  from frame_crop_only_length_checked[OF q, of "Some [0, 0, 640, 480]" Cv2 "''cam1''" "''rtsp''" "Location ''rtsp://h/s''" "-1"]
  have b: "\<exists>s :: nat video_stream. VideoStream_init Cv2 ''cam1'' ''rtsp'' (Location ''rtsp://h/s'') (-1)
      (default_kwargs\<lparr>frame_crop_arg := Some [0, 0, 640, 480]\<rparr>) = Inr s \<and> frame_crop s = Some [0, 0, 640, 480]"
    by simp
  have "deque_new (queue_size (default_kwargs :: nat stream_kwargs)) = Inr (\<lparr>items = [], maxlen = Some 3\<rparr> :: nat deque)"
    by (simp add: default_kwargs_def deque_new_def)
  with a b show ?thesis by blast
qed

text \<open>
  C9 as stated fails: a crop with negative corners and a corner far outside any frame is
  accepted.
\<close>

theorem negative_oversized_crop_counterexample:
  "\<not> isl (VideoStream_init Cv2 ''cam1'' ''rtsp'' (Location ''rtsp://h/s'') (-1)
            (default_kwargs\<lparr>frame_crop_arg := Some [- 5, - 5, 100000, 100000]\<rparr>) :: py_error + nat video_stream) \<and>
   frame_crop (cam1 Cv2 (-1) (default_kwargs\<lparr>frame_crop_arg := Some [- 5, - 5, 100000, 100000]\<rparr>) :: nat video_stream)
     = Some [- 5, - 5, 100000, 100000]"
  by (simp add: cam1_def VideoStream_init_def default_kwargs_def deque_new_def)

lemma init_rest_fields:
  "fps (init_rest s) = fps s" "Q (init_rest s) = Q s" "stopped (init_rest s) = stopped s"
  "video_stream_type (init_rest s) = video_stream_type s" "vlc_player (init_rest s) = vlc_player s"
  "sleeps (init_rest s) = sleeps s" "do_reconnect (init_rest s) = do_reconnect s"
  "frame_crop (init_rest s) = frame_crop s" "max_cache (init_rest s) = max_cache s"
  "reconnect_threshold_sec (init_rest s) = reconnect_threshold_sec s"
  "pauseTime (init_rest s) = pauseTime s" "printTime (init_rest s) = printTime s"
  by (simp_all add: init_rest_def Let_def)

lemma init_size_fields:
  assumes "init_size p s = Inr s'"
  shows "fps s' = fps s" "Q s' = Q s" "stopped s' = stopped s"
    "video_stream_type s' = video_stream_type s" "vlc_player s' = vlc_player s"
    "sleeps s' = sleeps s" "do_reconnect s' = do_reconnect s"
    "frame_crop s' = frame_crop s" "max_cache s' = max_cache s"
    "reconnect_threshold_sec s' = reconnect_threshold_sec s"
    "pauseTime s' = pauseTime s" "printTime s' = printTime s"
  using assms by (auto simp: init_size_def split: option.splits sum.splits)

lemma init_fps_fields:
  "Q (init_fps p s) = Q s" "stopped (init_fps p s) = stopped s"
  "video_stream_type (init_fps p s) = video_stream_type s" "vlc_player (init_fps p s) = vlc_player s"
  "sleeps (init_fps p s) = sleeps s" "do_reconnect (init_fps p s) = do_reconnect s"
  "manual_video_fps (init_fps p s) = manual_video_fps s"
  "frame_crop (init_fps p s) = frame_crop s" "max_cache (init_fps p s) = max_cache s"
  "reconnect_threshold_sec (init_fps p s) = reconnect_threshold_sec s"
  "pauseTime (init_fps p s) = pauseTime s" "printTime (init_fps p s) = printTime s"
  by (simp_all add: init_fps_def)

lemma init_src_fields:
  "Q (init_src p s) = Q s" "stopped (init_src p s) = stopped s"
  "video_stream_type (init_src p s) = video_stream_type s" "vlc_player (init_src p s) = vlc_player s"
  "sleeps (init_src p s) = sleeps s" "do_reconnect (init_src p s) = do_reconnect s"
  "frame_crop (init_src p s) = frame_crop s" "max_cache (init_src p s) = max_cache s"
  "reconnect_threshold_sec (init_src p s) = reconnect_threshold_sec s"
  "pauseTime (init_src p s) = pauseTime s" "printTime (init_src p s) = printTime s"
  by (simp_all add: init_src_def Let_def init_rest_fields init_size_fields init_fps_fields split: sum.splits)

lemma fps_init_src:
  "fps (init_src p s) =
     (if manual_video_fps s = None \<or> manual_video_fps s = Some 0
      then Some (if py_int (cap_fps p) = 0 then 30 else py_int (cap_fps p))
      else manual_video_fps s)"
proof -
  have "fps (init_src p s) = fps (init_fps p (s\<lparr>stream := Opened\<rparr>))"
    by (simp add: init_src_def Let_def init_rest_fields init_size_fields split: sum.splits)
  then show ?thesis by (simp add: init_fps_def)
qed

text \<open>
  C8, as amended. When no manual frame rate was supplied (or the one supplied is 0, which
  the code treats as none) and the source reports a frame rate that \<^verbatim>\<open>int\<close> makes 0, the
  frame rate becomes 30; a manual frame rate other than 0 is used unchanged; after
  \<^verbatim>\<open>init_src\<close> the frame rate is set and is not 0, so the pacing sleep does not divide by
  zero.
\<close>

theorem init_src_frame_rate:
  "((manual_video_fps s = None \<or> manual_video_fps s = Some 0) \<and> py_int (cap_fps p) = 0
      \<longrightarrow> fps (init_src p s) = Some 30) \<and>
   (\<forall>m. manual_video_fps s = Some m \<and> m \<noteq> 0 \<longrightarrow> fps (init_src p s) = Some m) \<and>
   fps (init_src p s) \<noteq> Some 0 \<and> fps (init_src p s) \<noteq> None \<and>
   pace (init_src p s) \<noteq> Inl ZeroDivisionError"
proof -
  have a: "fps (init_src p s) \<noteq> Some 0" "fps (init_src p s) \<noteq> None"
    by (auto simp: fps_init_src)
  then have "pace (init_src p s) \<noteq> Inl ZeroDivisionError"
    by (auto simp: pace_def split: option.splits)
  with a show ?thesis by (auto simp: fps_init_src)
qed

lemma cam1_manual:
  "manual_video_fps (cam1 b m default_kwargs) = (if m = -1 then None else Some m)"
  by (simp add: cam1_def VideoStream_init_def default_kwargs_def deque_new_def)

theorem init_src_frame_rate_witness:
  "manual_video_fps (cam1 Cv2 (-1) default_kwargs :: nat list list video_stream) = None \<and>
   py_int (cap_fps webcam) = 0 \<and>
   fps (init_src webcam (cam1 Cv2 (-1) default_kwargs :: nat list list video_stream)) = Some 30 \<and>
   manual_video_fps (cam1 Cv2 25 default_kwargs :: nat list list video_stream) = Some 25 \<and> (25::int) \<noteq> 0 \<and>
   fps (init_src webcam (cam1 Cv2 25 default_kwargs :: nat list list video_stream)) = Some 25 \<and>
   pace (init_src webcam (cam1 Cv2 (-1) default_kwargs :: nat list list video_stream)) \<noteq> Inl ZeroDivisionError"
proof -
  have h1: "manual_video_fps (cam1 Cv2 (-1) default_kwargs :: nat list list video_stream) = None"
    and h2: "py_int (cap_fps webcam) = 0"
    and h3: "manual_video_fps (cam1 Cv2 25 default_kwargs :: nat list list video_stream) = Some 25"
    by (simp_all add: cam1_manual webcam_def py_int_def)
  from init_src_frame_rate[of "cam1 Cv2 (-1) default_kwargs :: nat list list video_stream" webcam]
    init_src_frame_rate[of "cam1 Cv2 25 default_kwargs :: nat list list video_stream" webcam] h1 h2 h3
  show ?thesis by simp
qed

text \<open>
  C8 as stated fails for a manual frame rate of 0: it is not used, the frame rate of the
  source is.
\<close>

theorem manual_fps_zero_counterexample:
  "manual_video_fps (cam1 Cv2 0 default_kwargs :: nat list list video_stream) = Some 0 \<and>
   fps (init_src camera25 (cam1 Cv2 0 default_kwargs :: nat list list video_stream)) = Some 25"
  by (simp add: cam1_manual fps_init_src camera25_def py_int_def)

section \<open>The descriptor list\<close>

lemma parse_line_usb_example:
  "parse_line ev empty_listing ''webcam1,usb:0'' =
     Inr \<lparr>video_feed_names = [''webcam1''], streams = [Device 0], source_types = [''usb''],
          manual_fps = [-1], pure_files_only = False\<rparr>"
  by (simp add: parse_line_def strip_def is_space_def startswith_def video_path_of_def
      manual_fps_of_def int_of_str_def digits_value_def is_digit_def empty_listing_def)

lemma parse_line_file_example:
  "parse_line some_files empty_listing ''my_video_file,file:a.mp4,25'' =
     Inr \<lparr>video_feed_names = [''my_video_file''], streams = [Location ''a.mp4''],
          source_types = [''file''], manual_fps = [25], pure_files_only = True\<rparr>"
  "parse_line some_files empty_listing ''my_video_file,file:c.mp4,25'' = Inl AssertionError"
  by (simp_all add: parse_line_def strip_def is_space_def startswith_def video_path_of_def
      manual_fps_of_def some_files_def empty_listing_def)

lemma strip_removes_latin1_spaces:
  "strip (CHR 0xA0 # ''#y,usb:1'' @ [CHR 0x85, CHR ''\<newline>'']) = ''#y,usb:1''"
  "int_of_str (CHR 0xA0 # ''12'' @ [CHR 0x85]) = Inr 12"
  by code_simp+

lemma video_path_of_network_raises:
  "stype \<noteq> ''usb'' \<Longrightarrow> stype \<noteq> ''file'' \<Longrightarrow> video_path_of ev stype path url = Inl TypeError"
  by (simp add: video_path_of_def py_set_def)

text \<open>
  C5. The first line of the example in the docstring of \<^verbatim>\<open>from_list_file\<close>, a network
  stream, makes \<^verbatim>\<open>from_list_file\<close> raise \<^verbatim>\<open>TypeError\<close>, whatever files exist and whatever
  arguments are given: the claim that parsing succeeds for the tags \<^verbatim>\<open>rtsp\<close>, \<^verbatim>\<open>http\<close> and
  \<^verbatim>\<open>https\<close> does not hold of the code. A \<^verbatim>\<open>usb\<close> address does become a device index, and
  a \<^verbatim>\<open>file\<close> address that is no file does fail the assertion.
\<close>

theorem from_list_file_network_line_raises:
  "from_list_file ev [''stream1,rtsp://192.168.1.39:554/stream''] kwargs = Inl TypeError"
  by (simp add: from_list_file_def parse_line_def strip_def is_space_def startswith_def
      video_path_of_def py_set_def)

lemma py_set_three: "py_set [a, b, c] = Inl TypeError"
  by (simp add: py_set_def)

lemma video_path_of_Inr:
  "video_path_of ev stype path url = Inr (vp, keep) \<Longrightarrow> keep = (stype = ''file'')"
  by (auto simp: video_path_of_def py_set_three split: if_splits sum.splits)

lemma parse_line_Inr:
  assumes "parse_line ev acc l = Inr acc'"
  shows "(is_comment l \<and> acc' = acc) \<or>
         (\<not> is_comment l \<and>
          (\<exists>n st t f. acc' = \<lparr>video_feed_names = video_feed_names acc @ [n],
                              streams = streams acc @ [st],
                              source_types = source_types acc @ [t],
                              manual_fps = manual_fps acc @ [f],
                              pure_files_only = (pure_files_only acc \<and> t = ''file'')\<rparr>))"
proof (cases "is_comment l")
  case True
  with assms show ?thesis by (simp add: parse_line_def is_comment_def)
next
  case False
  from assms False obtain name url rest where sp: "split_on CHR '','' (strip l) = name # url # rest"
    by (auto simp: parse_line_def is_comment_def split: list.splits)
  from assms False sp obtain stype path where sf: "split_first CHR '':'' url = Some (stype, path)"
    by (auto simp: parse_line_def is_comment_def split: option.splits)
  from assms False sp sf obtain vp keep where vp: "video_path_of ev stype path url = Inr (vp, keep)"
    by (auto simp: parse_line_def is_comment_def split: sum.splits)
  from assms False sp sf vp obtain rate where "manual_fps_of ev rest = Inr rate"
    by (auto simp: parse_line_def is_comment_def split: sum.splits)
  with assms False sp sf vp video_path_of_Inr[OF vp] show ?thesis
    by (auto simp: parse_line_def is_comment_def)
qed

lemma parse_line_consistent:
  assumes "parse_line ev acc l = Inr acc'" and "consistent acc"
  shows "consistent acc' \<and>
         length (video_feed_names acc') = length (video_feed_names acc) + (if is_comment l then 0 else 1)"
  using parse_line_Inr[OF assms(1)] assms(2)
  by (auto simp: consistent_def)

lemma parse_lines_consistent:
  assumes "parse_lines ev acc ls = Inr acc'" and "consistent acc"
  shows "consistent acc' \<and>
         length (video_feed_names acc') =
           length (video_feed_names acc) + length (filter (\<lambda>l. \<not> is_comment l) ls)"
  using assms
proof (induction ls arbitrary: acc)
  case Nil
  then show ?case by simp
next
  case (Cons l ls)
  from Cons.prems(1) obtain acc1 where 1: "parse_line ev acc l = Inr acc1"
    and 2: "parse_lines ev acc1 ls = Inr acc'"
    by (auto split: sum.splits)
  from parse_line_consistent[OF 1 Cons.prems(2)] Cons.IH[OF 2] show ?case by auto
qed

lemma make_streams_Inr:
  assumes "make_streams b kw ns ts ps fs = Inr vs"
    and "length ts = length ns"
  shows "length vs = length ns \<and> map (\<lambda>v. source_type (snd v)) vs = ts \<and>
         (\<forall>v\<in>set vs. deque_new (queue_size kw) = Inr (Q (snd v)))"
  using assms
proof (induction b kw ns ts ps fs arbitrary: vs rule: make_streams.induct)
  case (1 b kw ts ps fs)
  then show ?case by simp
next
  case (2 b kw n ns t ts p ps f fs)
  from "2.prems"(1) obtain s vs' where s: "VideoStream_init b n t p (py_int f) kw = Inr s"
    and r: "make_streams b kw ns ts ps fs = Inr vs'" and v: "vs = (n, s) # vs'"
    by (auto split: sum.splits)
  have st: "source_type s = t" and q: "deque_new (queue_size kw) = Inr (Q s)"
    using s by (auto simp: VideoStream_init_def split: sum.splits if_splits)
  from "2.IH"[OF s r] "2.prems"(2) st q v show ?case by simp
qed simp_all

lemma deque_new_maxlen:
  "deque_new qs = Inr d \<Longrightarrow> maxlen d = (case qs of None \<Rightarrow> None | Some n \<Rightarrow> Some (nat n))"
  by (auto simp: deque_new_def split: option.splits if_splits)

lemma consistent_empty: "consistent empty_listing"
  by (simp add: consistent_def empty_listing_def)

text \<open>
  C6. Whenever \<^verbatim>\<open>from_list_file\<close> returns a manager, the manager has one stream for each
  line that is not a comment, and the capacity of the buffer of every stream is
  unbounded when every source is of type \<^verbatim>\<open>file\<close> and no \<^verbatim>\<open>queue_size\<close> was given, and is
  otherwise the \<^verbatim>\<open>queue_size\<close> given (\<^verbatim>\<open>None\<close> for unbounded), or the default of 3 when
  none was given.
\<close>

theorem from_list_file_queue_size:
  fixes m :: "'f video_manager"
  assumes "from_list_file ev file_lines kwargs = Inr m"
  shows "length (videos m) = length (filter (\<lambda>l. \<not> is_comment l) file_lines) \<and>
         (\<forall>v \<in> set (videos m). maxlen (Q (snd v)) =
            (if (\<forall>w \<in> set (videos m). source_type (snd w) = ''file'') \<and> kw_queue_size kwargs = None
             then None
             else case kw_queue_size kwargs of
                    None \<Rightarrow> Some 3
                  | Some None \<Rightarrow> None
                  | Some (Some n) \<Rightarrow> Some (nat n)))"
proof -
  from assms obtain acc where p: "parse_lines ev empty_listing file_lines = Inr acc"
    by (auto simp: from_list_file_def split: sum.splits)
  define kw where "kw = (if pure_files_only acc \<and> kw_queue_size kwargs = None
                          then kwargs\<lparr>kw_queue_size := Some None\<rparr> else kwargs)"
  from assms p have i: "VideoManager_init (video_feed_names acc) (source_types acc) (streams acc)
                          (manual_fps acc) kw = Inr m"
    by (simp add: from_list_file_def kw_def Let_def)
  from parse_lines_consistent[OF p consistent_empty]
  have c: "consistent acc"
    and n: "length (video_feed_names acc) = length (filter (\<lambda>l. \<not> is_comment l) file_lines)"
    by (simp_all add: empty_listing_def)
  let ?b = "if kw_method kw = Some ''vlc'' then Vlc else Cv2"
  from i have ms: "make_streams ?b (stream_kwargs_of kw) (video_feed_names acc) (source_types acc)
                     (streams acc) (manual_fps acc) = Inr (videos m)"
    by (auto simp: VideoManager_init_def split: if_splits sum.splits)
  from c have "length (source_types acc) = length (video_feed_names acc)"
    by (simp add: consistent_def)
  from make_streams_Inr[OF ms this]
  have len: "length (videos m) = length (video_feed_names acc)"
    and ty: "map (\<lambda>v. source_type (snd v)) (videos m) = source_types acc"
    and dq: "\<forall>v\<in>set (videos m).
               deque_new (queue_size (stream_kwargs_of kw :: 'f stream_kwargs)) = Inr (Q (snd v))"
    by simp_all
  have pf: "pure_files_only acc = (\<forall>w \<in> set (videos m). source_type (snd w) = ''file'')"
  proof -
    have "pure_files_only acc = list_all (\<lambda>t. t = ''file'') (map (\<lambda>v. source_type (snd v)) (videos m))"
      using c ty by (simp add: consistent_def)
    then show ?thesis by (simp add: list_all_iff)
  qed
  have qs: "queue_size (stream_kwargs_of kw :: 'f stream_kwargs) =
              (if pure_files_only acc \<and> kw_queue_size kwargs = None then None
               else case kw_queue_size kwargs of None \<Rightarrow> Some 3 | Some q \<Rightarrow> q)"
    by (simp add: stream_kwargs_of_def kw_def)
  have "maxlen (Q (snd v)) =
            (if (\<forall>w \<in> set (videos m). source_type (snd w) = ''file'') \<and> kw_queue_size kwargs = None
             then None
             else case kw_queue_size kwargs of
                    None \<Rightarrow> Some 3
                  | Some None \<Rightarrow> None
                  | Some (Some n) \<Rightarrow> Some (nat n))" if "v \<in> set (videos m)" for v
  proof -
    from dq that
    have "deque_new (queue_size (stream_kwargs_of kw :: 'f stream_kwargs)) = Inr (Q (snd v))" by blast
    from deque_new_maxlen[OF this] show ?thesis
      unfolding qs pf by (auto split: option.splits)
  qed
  with len n show ?thesis by simp
qed

lemma files_manager_facts:
  "from_list_file some_files all_files_list no_kwargs = Inr files_manager"
  "list_all (\<lambda>w. source_type (snd w) = ''file'') (videos files_manager)"
  "length (filter (\<lambda>l. \<not> is_comment l) all_files_list) = 2"
proof -
  have "\<not> isl (from_list_file some_files all_files_list no_kwargs :: py_error + nat video_manager)"
    by code_simp
  then show "from_list_file some_files all_files_list no_kwargs = Inr files_manager"
    unfolding files_manager_def by simp
  show "list_all (\<lambda>w. source_type (snd w) = ''file'') (videos files_manager)"
    by code_simp
  show "length (filter (\<lambda>l. \<not> is_comment l) all_files_list) = 2"
    by code_simp
qed

lemma mixed_manager_facts:
  "from_list_file some_files mixed_list no_kwargs = Inr mixed_manager"
  "\<not> list_all (\<lambda>w. source_type (snd w) = ''file'') (videos mixed_manager)"
  "videos mixed_manager \<noteq> []"
proof -
  have "\<not> isl (from_list_file some_files mixed_list no_kwargs :: py_error + nat video_manager)"
    by code_simp
  then show "from_list_file some_files mixed_list no_kwargs = Inr mixed_manager"
    unfolding mixed_manager_def by simp
  show "\<not> list_all (\<lambda>w. source_type (snd w) = ''file'') (videos mixed_manager)"
    by code_simp
  show "videos mixed_manager \<noteq> []"
    by code_simp
qed

lemma map_all_equal: "\<forall>x\<in>set xs. f x = c \<Longrightarrow> map f xs = replicate (length xs) c"
  by (induction xs) auto

theorem from_list_file_queue_size_witness:
  "from_list_file some_files all_files_list no_kwargs = Inr files_manager \<and>
   map (\<lambda>v. maxlen (Q (snd v))) (videos files_manager) = [None, None] \<and>
   from_list_file some_files mixed_list no_kwargs = Inr mixed_manager \<and>
   map (\<lambda>v. maxlen (Q (snd v))) (videos mixed_manager) = [Some 3, Some 3]"
proof -
  have k: "kw_queue_size no_kwargs = None" by (simp add: no_kwargs_def)
  have l: "length (filter (\<lambda>l. \<not> is_comment l) mixed_list) = 2" by code_simp
  from from_list_file_queue_size[OF files_manager_facts(1)] files_manager_facts(2,3) k
  have a: "length (videos files_manager) = 2 \<and>
           (\<forall>v \<in> set (videos files_manager). maxlen (Q (snd v)) = None)"
    by (simp add: list_all_iff)
  have nf: "\<not> (\<forall>w \<in> set (videos mixed_manager). source_type (snd w) = ''file'')"
    using mixed_manager_facts(2) by (simp add: list_all_iff)
  from from_list_file_queue_size[OF mixed_manager_facts(1)]
  have b: "length (videos mixed_manager) = 2 \<and>
           (\<forall>v \<in> set (videos mixed_manager). maxlen (Q (snd v)) = Some 3)"
    unfolding k l using nf by auto
  from a map_all_equal[of "videos files_manager" "\<lambda>v. maxlen (Q (snd v))" None]
  have a': "map (\<lambda>v. maxlen (Q (snd v))) (videos files_manager) = [None, None]"
    by (simp add: numeral_2_eq_2)
  from b map_all_equal[of "videos mixed_manager" "\<lambda>v. maxlen (Q (snd v))" "Some 3"]
  have b': "map (\<lambda>v. maxlen (Q (snd v))) (videos mixed_manager) = [Some 3, Some 3]"
    by (simp add: numeral_2_eq_2)
  from a' b' files_manager_facts(1) mixed_manager_facts(1) show ?thesis by blast
qed

section \<open>The acquisition loop\<close>







lemma started_facts:
  "fps (started b) = Some 25" "frame_crop (started b) = None" "video_stream_type (started b) = b"
  "items (Q (started b)) = []" "max_cache (started b) = 10" "sleeps (started b) = []"
  "\<not> stopped (started b)" "maxlen (Q (started b)) = Some 3"
proof -
  have c: "frame_crop (cam1 b (-1) default_kwargs :: nat list list video_stream) = None"
    "video_stream_type (cam1 b (-1) default_kwargs :: nat list list video_stream) = b"
    "Q (cam1 b (-1) default_kwargs :: nat list list video_stream) = \<lparr>items = [], maxlen = Some 3\<rparr>"
    "max_cache (cam1 b (-1) default_kwargs :: nat list list video_stream) = 10"
    "sleeps (cam1 b (-1) default_kwargs :: nat list list video_stream) = []"
    "\<not> inited (cam1 b (-1) default_kwargs :: nat list list video_stream)"
    by (cases b; simp add: cam1_def VideoStream_init_def default_kwargs_def deque_new_def)+
  have s: "started b = (init_src camera25 (cam1 b (-1) default_kwargs))\<lparr>stopped := False\<rparr>"
    using c(6) by (simp add: started_def start_def)
  show "fps (started b) = Some 25"
    by (simp add: s fps_init_src cam1_manual camera25_def py_int_def)
  show "video_stream_type (started b) = b" "items (Q (started b)) = []" "sleeps (started b) = []"
    "\<not> stopped (started b)" "maxlen (Q (started b)) = Some 3"
    "frame_crop (started b) = None" "max_cache (started b) = 10"
    by (simp_all add: s init_src_fields c)
qed




section \<open>Stopping\<close>

lemma stop_running:
  assumes "\<not> stopped s" and "video_stream_type s = Vlc \<longrightarrow> vlc_player s \<noteq> None"
  shows "stopped (stop s)" "\<not> more_frames (stop s)" "session_released (stop s)"
  using assms
  by (cases "video_stream_type s";
      auto simp: stop_def stop_cv2_def stop_vlc_def Let_def more_frames_def clear_def
        session_released_def split: option.splits)+

lemma stop_stopped: "stopped s \<Longrightarrow> stop s = s"
  by (cases "video_stream_type s") (simp_all add: stop_def stop_cv2_def stop_vlc_def)

lemma stopped_stop: "stopped (stop s)"
  by (cases "video_stream_type s";
      simp add: stop_def stop_cv2_def stop_vlc_def Let_def split: option.splits)

lemma get_body_failed:
  assumes "failed tk" and "video_stream_type s = Cv2 \<longrightarrow> int (len (Q s)) \<le> max_cache s"
  shows "get_body tk s = countdown tk s"
  using assms
  by (cases "video_stream_type s"; cases "capture tk";
      simp add: get_body_def get_body_cv2_def get_body_vlc_def failed_def)

lemma print_countdown_fields:
  "stopped (print_countdown tk ct prt s) = stopped s" "Q (print_countdown tk ct prt s) = Q s"
  "do_reconnect (print_countdown tk ct prt s) = do_reconnect s"
  "pauseTime (print_countdown tk ct prt s) = pauseTime s"
  "max_cache (print_countdown tk ct prt s) = max_cache s"
  "video_stream_type (print_countdown tk ct prt s) = video_stream_type s"
  "vlc_player (print_countdown tk ct prt s) = vlc_player s"
  "reconnect_threshold_sec (print_countdown tk ct prt s) = reconnect_threshold_sec s"
  by (simp_all add: print_countdown_def Let_def)

lemma print_countdown_printTime:
  "printTime s \<noteq> None \<Longrightarrow> printTime (print_countdown tk ct prt s) \<noteq> None"
  by (auto simp: print_countdown_def Let_def)

lemma start_countdown_fields:
  "stopped (start_countdown tk s) = stopped s" "Q (start_countdown tk s) = Q s"
  by (simp_all add: start_countdown_def)

lemma countdown_starts:
  "pauseTime s = None \<Longrightarrow>
   countdown tk s = countdown tk (s\<lparr>pauseTime := Some (t_pause tk), printTime := Some (t_print tk)\<rparr>)"
  by (simp add: countdown_def start_countdown_def)

lemma countdown_counting_down:
  assumes "counting_down p s"
  shows "(reconnect_threshold_sec s \<le> t_since_pause tk - p \<longrightarrow>
            (\<exists>s'. countdown tk s = (Break, s') \<and> stopped s' \<and> session_released s' \<and> \<not> more_frames s')) \<and>
         (\<not> reconnect_threshold_sec s \<le> t_since_pause tk - p \<longrightarrow>
            (\<exists>s'. countdown tk s = (Continue, s') \<and> counting_down p s' \<and>
                  reconnect_threshold_sec s' = reconnect_threshold_sec s))"
proof -
  from assms obtain q where q: "printTime s = Some q" by (auto simp: counting_down_def)
  from assms have p: "pauseTime s = Some p" by (simp add: counting_down_def)
  define ct where "ct = reconnect_threshold_sec s - (t_since_pause tk - p)"
  define s2 where "s2 = print_countdown tk ct q s"
  have cd2: "counting_down p s2"
    using assms print_countdown_printTime[of s tk ct q]
    by (simp add: s2_def counting_down_def more_frames_def print_countdown_fields)
  have th: "reconnect_threshold_sec s2 = reconnect_threshold_sec s"
    by (simp add: s2_def print_countdown_fields)
  have c: "countdown tk s = expire ct s2"
    using p q by (simp add: countdown_def start_countdown_def Let_def s2_def ct_def)
  have e: "expire ct s2 = (if ct \<le> 0 then (Break, stop s2) else (Continue, s2))"
    using cd2 by (simp add: expire_def counting_down_def)
  from cd2 have "stopped (stop s2) \<and> session_released (stop s2) \<and> \<not> more_frames (stop s2)"
    using stop_running[of s2] by (simp add: counting_down_def)
  with c e cd2 th show ?thesis by (auto simp: ct_def)
qed

lemma get_loop_counting_down:
  assumes "counting_down p s" and "tks \<noteq> []" and "\<forall>tk\<in>set tks. failed tk"
    and "reconnect_threshold_sec s \<le> t_since_pause (last tks) - p"
  shows "\<exists>s'. get_loop tks s = (Break, s') \<and> stopped s' \<and> session_released s' \<and> \<not> more_frames s'"
  using assms
proof (induction tks arbitrary: s)
  case Nil
  then show ?case by simp
next
  case (Cons tk tks)
  from Cons.prems(1) have ns: "\<not> stopped s"
    and g: "video_stream_type s = Cv2 \<longrightarrow> int (len (Q s)) \<le> max_cache s"
    by (auto simp: counting_down_def more_frames_def len_def)
  from Cons.prems(3) have "failed tk" by simp
  from get_body_failed[OF this g] have gb: "get_body tk s = countdown tk s" .
  show ?case
  proof (cases "reconnect_threshold_sec s \<le> t_since_pause tk - p")
    case True
    with countdown_counting_down[OF Cons.prems(1), of tk] gb ns show ?thesis by auto
  next
    case False
    with countdown_counting_down[OF Cons.prems(1), of tk] obtain s1 where
      s1: "countdown tk s = (Continue, s1)" "counting_down p s1"
          "reconnect_threshold_sec s1 = reconnect_threshold_sec s" by blast
    from False Cons.prems(4) have ne: "tks \<noteq> []" by auto
    with Cons.prems(3,4) s1(3) have "\<forall>tk\<in>set tks. failed tk"
      "reconnect_threshold_sec s1 \<le> t_since_pause (last tks) - p" by simp_all
    from Cons.IH[OF s1(2) ne this] gb s1(1) ns show ?thesis by simp
  qed
qed

lemma get_loop_from_streaming:
  assumes "\<not> stopped s" and "\<not> do_reconnect s" and "\<not> more_frames s" and "pauseTime s = None"
    and "video_stream_type s = Cv2 \<longrightarrow> 0 \<le> max_cache s"
    and "video_stream_type s = Vlc \<longrightarrow> vlc_player s \<noteq> None"
    and "tks \<noteq> []" and "\<forall>tk\<in>set tks. failed tk"
    and "reconnect_threshold_sec s \<le> t_since_pause (last tks) - t_pause (hd tks)"
  shows "\<exists>s'. get_loop tks s = (Break, s') \<and> stopped s' \<and> session_released s' \<and> \<not> more_frames s'"
proof -
  from assms(7) obtain tk rest where tks: "tks = tk # rest" by (cases tks) auto
  let ?s0 = "s\<lparr>pauseTime := Some (t_pause tk), printTime := Some (t_print tk)\<rparr>"
  have cd: "counting_down (t_pause tk) ?s0"
    using assms(1-6) by (simp add: counting_down_def more_frames_def)
  have g: "video_stream_type s = Cv2 \<longrightarrow> int (len (Q s)) \<le> max_cache s"
    using assms(3,5) by (auto simp: more_frames_def len_def)
  have g0: "video_stream_type ?s0 = Cv2 \<longrightarrow> int (len (Q ?s0)) \<le> max_cache ?s0"
    using g by simp
  from assms(8) tks have f: "failed tk" by simp
  have "get_body tk s = get_body tk ?s0"
    using get_body_failed[OF f g] get_body_failed[OF f g0] countdown_starts[OF assms(4), of tk]
    by simp
  with assms(1) have eq: "get_loop tks s = get_loop tks ?s0" by (simp add: tks)
  have "reconnect_threshold_sec ?s0 \<le> t_since_pause (last tks) - t_pause tk"
    using assms(9) tks by simp
  from get_loop_counting_down[OF cd assms(7,8) this] eq show ?thesis by simp
qed

lemma get_from_streaming:
  assumes "\<not> stopped s" and "\<not> do_reconnect s" and "\<not> more_frames s" and "pauseTime s = None"
    and "video_stream_type s = Cv2 \<longrightarrow> 0 \<le> max_cache s"
    and "tks \<noteq> []" and "\<forall>tk\<in>set tks. failed tk"
    and "reconnect_threshold_sec s \<le> t_since_pause (last tks) - t_pause (hd tks)"
  shows "\<exists>s'. get tks s = (Break, s') \<and> stopped s' \<and> session_released s' \<and> \<not> more_frames s'"
proof (cases "video_stream_type s")
  case Cv2
  then have "get tks s = get_loop tks s" by (simp add: get_def)
  with get_loop_from_streaming[OF assms(1-5) _ assms(6-8)] Cv2 show ?thesis by simp
next
  case Vlc
  let ?s0 = "s\<lparr>vlc_player := Some Opened\<rparr>"
  from Vlc have e: "get tks s = get_loop tks ?s0" by (simp add: get_def)
  have "\<exists>s'. get_loop tks ?s0 = (Break, s') \<and> stopped s' \<and> session_released s' \<and> \<not> more_frames s'"
    using assms by (intro get_loop_from_streaming) (simp_all add: more_frames_def)
  with e show ?thesis by simp
qed

lemma get_loop_stopped: "stopped s \<Longrightarrow> get_loop tks s = (Break, s)"
  by (cases tks) simp_all

lemma stopped_read: "read s = Inr (f, s') \<Longrightarrow> stopped s' = stopped s"
  by (auto simp: read_def pop_def Let_def split: if_splits option.splits)

lemma stopped_call: "stopped s \<Longrightarrow> stopped (perform c s)"
proof (cases c)
  case Call_read
  assume "stopped s"
  then show ?thesis using Call_read stopped_read[of s]
    by (auto split: sum.splits)
next
  case Call_stop
  then show ?thesis by (simp add: stopped_stop)
next
  case (Call_init_src p)
  assume "stopped s"
  then show ?thesis using Call_init_src by (simp add: init_src_fields)
next
  case (Call_get tks)
  assume "stopped s"
  then show ?thesis using Call_get
    by (cases "video_stream_type s") (simp_all add: get_def get_loop_stopped)
qed

lemma stays_stopped: "stopped s \<Longrightarrow> stopped (fold perform cs s)"
  by (induction cs arbitrary: s) (simp_all add: stopped_call)

lemma not_stopped_start: "\<not> stopped (start p s)"
  by (simp add: start_def Let_def)

text \<open>
  C3. Take a running stream with reconnection disabled, an empty buffer and no failure
  pending, as the worker at position \<open>i\<close> of a manager, and let its loop run iterations
  whose captures all fail (for \<^verbatim>\<open>cv2\<close>, with a \<open>max_cache\<close> that is not negative, so that
  captures are attempted), the last of them at least \<open>reconnect_threshold_sec\<close> after the
  first. Then the loop has ended, the stream is stopped, its session is released and its
  buffer is empty; whatever is called on it other than \<^verbatim>\<open>start\<close> leaves it stopped, and
  \<^verbatim>\<open>start\<close> makes it run again; the flag of the manager and every other worker are as
  they were.
\<close>

theorem self_stop_is_terminal_and_local:
  fixes m :: "'p list list video_manager"
  assumes "i < length (videos m)" and "s = snd (videos m ! i)"
    and "\<not> stopped s" and "\<not> do_reconnect s" and "\<not> more_frames s" and "pauseTime s = None"
    and "video_stream_type s = Cv2 \<longrightarrow> 0 \<le> max_cache s"
    and "tks \<noteq> []" and "\<forall>tk\<in>set tks. failed tk"
    and "reconnect_threshold_sec s \<le> t_since_pause (last tks) - t_pause (hd tks)"
    and "s' = snd (get tks s)" and "m' = worker_get i tks m"
  shows "fst (get tks s) = Break \<and> stopped s' \<and> session_released s' \<and> \<not> more_frames s' \<and>
         (\<forall>cs. stopped (fold perform cs s')) \<and> \<not> stopped (start p s') \<and>
         snd (videos m' ! i) = s' \<and> mgr_stopped m' = mgr_stopped m \<and>
         length (videos m') = length (videos m) \<and>
         (\<forall>j<length (videos m). j \<noteq> i \<longrightarrow> videos m' ! j = videos m ! j)"
proof -
  from get_from_streaming[OF assms(3-10)] assms(11)
  have a: "fst (get tks s) = Break" "stopped s'" "session_released s'" "\<not> more_frames s'"
    by auto
  from a(2) have b: "\<forall>cs. stopped (fold perform cs s')" by (simp add: stays_stopped)
  have c: "snd (videos m' ! i) = s'" "mgr_stopped m' = mgr_stopped m"
    "length (videos m') = length (videos m)"
    "\<forall>j<length (videos m). j \<noteq> i \<longrightarrow> videos m' ! j = videos m ! j"
    using assms(1,2,11,12) by (simp_all add: worker_get_def)
  from a b c not_stopped_start[of p s'] show ?thesis by blast
qed

theorem self_stop_is_terminal_and_local_witness:
  "(0::nat) < length (videos two_workers) \<and> no_reconnect_cam = snd (videos two_workers ! 0) \<and>
   \<not> stopped no_reconnect_cam \<and> \<not> do_reconnect no_reconnect_cam \<and>
   \<not> more_frames no_reconnect_cam \<and> pauseTime no_reconnect_cam = None \<and>
   0 \<le> max_cache no_reconnect_cam \<and> failed (fail_tick 0) \<and> failed (fail_tick 21) \<and>
   reconnect_threshold_sec no_reconnect_cam \<le> t_since_pause (fail_tick 21) - t_pause (fail_tick 0) \<and>
   fst (get [fail_tick 0, fail_tick 21] no_reconnect_cam) = Break \<and>
   stopped (snd (get [fail_tick 0, fail_tick 21] no_reconnect_cam)) \<and>
   session_released (snd (get [fail_tick 0, fail_tick 21] no_reconnect_cam)) \<and>
   \<not> more_frames (snd (get [fail_tick 0, fail_tick 21] no_reconnect_cam)) \<and>
   stopped (fold perform [Call_read, Call_get [good_tick], Call_init_src camera25, Call_stop]
              (snd (get [fail_tick 0, fail_tick 21] no_reconnect_cam))) \<and>
   \<not> stopped (start camera25 (snd (get [fail_tick 0, fail_tick 21] no_reconnect_cam))) \<and>
   mgr_stopped (worker_get 0 [fail_tick 0, fail_tick 21] two_workers) = mgr_stopped two_workers \<and>
   videos (worker_get 0 [fail_tick 0, fail_tick 21] two_workers) ! 1 = videos two_workers ! 1"
proof -
  have h1: "(0::nat) < length (videos two_workers)"
    and h2: "no_reconnect_cam = snd (videos two_workers ! 0)"
    and l: "length (videos two_workers) = 2"
    by (simp_all add: two_workers_def)
  have h3: "\<not> stopped no_reconnect_cam" and h4: "\<not> do_reconnect no_reconnect_cam"
    and h5: "\<not> more_frames no_reconnect_cam" and h6: "pauseTime no_reconnect_cam = None"
    and h7: "0 \<le> max_cache no_reconnect_cam"
    and h10: "reconnect_threshold_sec no_reconnect_cam
                \<le> t_since_pause (fail_tick 21) - t_pause (fail_tick 0)"
    by code_simp+
  have f: "failed (fail_tick 0)" "failed (fail_tick 21)"
    by (simp_all add: failed_def fail_tick_def)
  have h8: "[fail_tick 0, fail_tick 21] \<noteq> []" by simp
  have h9: "\<forall>tk\<in>set [fail_tick 0, fail_tick 21]. failed tk" using f by simp
  have h10': "reconnect_threshold_sec no_reconnect_cam
                \<le> t_since_pause (last [fail_tick 0, fail_tick 21]) - t_pause (hd [fail_tick 0, fail_tick 21])"
    using h10 by simp
  have h7': "video_stream_type no_reconnect_cam = Cv2 \<longrightarrow> 0 \<le> max_cache no_reconnect_cam"
    using h7 by simp
  note t = self_stop_is_terminal_and_local[OF h1 h2 h3 h4 h5 h6 h7' h8 h9 h10' refl refl,
      of camera25]
  from t have a: "fst (get [fail_tick 0, fail_tick 21] no_reconnect_cam) = Break"
    "stopped (snd (get [fail_tick 0, fail_tick 21] no_reconnect_cam))"
    "session_released (snd (get [fail_tick 0, fail_tick 21] no_reconnect_cam))"
    "\<not> more_frames (snd (get [fail_tick 0, fail_tick 21] no_reconnect_cam))"
    "\<not> stopped (start camera25 (snd (get [fail_tick 0, fail_tick 21] no_reconnect_cam)))"
    "mgr_stopped (worker_get 0 [fail_tick 0, fail_tick 21] two_workers) = mgr_stopped two_workers"
    by blast+
  from t have b: "stopped (fold perform [Call_read, Call_get [good_tick], Call_init_src camera25, Call_stop]
              (snd (get [fail_tick 0, fail_tick 21] no_reconnect_cam)))"
    by blast
  from t l have c: "videos (worker_get 0 [fail_tick 0, fail_tick 21] two_workers) ! 1 = videos two_workers ! 1"
    by simp
  from h1 h2 h3 h4 h5 h6 h7 f h10 a b c show ?thesis by blast
qed

lemma stop_clears: "\<not> stopped s \<Longrightarrow> \<not> more_frames (stop s)"
  by (cases "video_stream_type s";
      auto simp: stop_def stop_cv2_def stop_vlc_def Let_def more_frames_def clear_def
        split: option.splits)

lemma read_keeps_empty: "read s = Inr (f, s') \<Longrightarrow> \<not> more_frames s \<Longrightarrow> \<not> more_frames s'"
  by (auto simp: read_def more_frames_def Let_def split: option.splits)

lemma expire_stopped:
  assumes "\<not> stopped s" and "expire ct s = (c, s')" and "stopped s'"
  shows "\<not> more_frames s'"
  using assms stop_clears[of s] by (auto simp: expire_def split: if_splits)

lemma countdown_stopped:
  assumes "\<not> stopped s" and "countdown tk s = (c, s')" and "stopped s'"
  shows "\<not> more_frames s'"
proof -
  let ?s1 = "start_countdown tk s"
  have n1: "\<not> stopped ?s1" using assms(1) by (simp add: start_countdown_fields)
  show ?thesis
  proof (cases "pauseTime ?s1")
    case None
    with assms(2) have "s' = ?s1" by (simp add: countdown_def)
    with n1 assms(3) show ?thesis by simp
  next
    case (Some pt)
    show ?thesis
    proof (cases "printTime ?s1")
      case None
      with Some assms(2) have "s' = ?s1" by (simp add: countdown_def)
      with n1 assms(3) show ?thesis by simp
    next
      case prt: (Some prt)
      define ct where "ct = reconnect_threshold_sec ?s1 - (t_since_pause tk - pt)"
      from Some prt assms(2) have e: "expire ct (print_countdown tk ct prt ?s1) = (c, s')"
        by (simp add: countdown_def Let_def ct_def)
      have "\<not> stopped (print_countdown tk ct prt ?s1)"
        using n1 by (simp add: print_countdown_fields)
      from expire_stopped[OF this e assms(3)] show ?thesis .
    qed
  qed
qed

lemma grabbed_frame_stopped:
  assumes "\<not> stopped s" and "grabbed_frame tk frame s = (c, s')" and "stopped s'"
  shows "\<not> more_frames s'"
proof (cases "crop (frame_crop s) frame")
  case (Inl e)
  with assms(2) have "countdown tk s = (c, s')" by (simp add: grabbed_frame_def)
  from countdown_stopped[OF assms(1) this assms(3)] show ?thesis .
next
  case (Inr fr)
  let ?s1 = "s\<lparr>Q := appendleft fr (Q s)\<rparr>"
  have n1: "\<not> stopped ?s1" using assms(1) by simp
  show ?thesis
  proof (cases "pace ?s1")
    case (Inl e)
    with Inr assms(2) have "countdown tk ?s1 = (c, s')" by (simp add: grabbed_frame_def)
    from countdown_stopped[OF n1 this assms(3)] show ?thesis .
  next
    case pr: (Inr s2)
    then have "stopped s2 = stopped ?s1"
      by (auto simp: pace_def split: option.splits if_splits)
    with Inr pr assms show ?thesis by (auto simp: grabbed_frame_def)
  qed
qed

lemma get_body_stopped:
  assumes "\<not> stopped s" and "get_body tk s = (c, s')" and "stopped s'"
  shows "\<not> more_frames s'"
proof (cases "video_stream_type s = Cv2 \<and> max_cache s < int (len (Q s))")
  case True
  with assms(2) have "s' = s\<lparr>sleeps := 1 / 100 # sleeps s\<rparr>"
    by (simp add: get_body_def get_body_cv2_def)
  with assms(1,3) show ?thesis by simp
next
  case False
  then have g: "get_body tk s =
       (case capture tk of Grabbed frame \<Rightarrow> grabbed_frame tk frame s
        | Not_grabbed \<Rightarrow> countdown tk s | Raised \<Rightarrow> countdown tk s)"
    by (cases "video_stream_type s") (auto simp: get_body_def get_body_cv2_def get_body_vlc_def)
  show ?thesis
  proof (cases "capture tk")
    case (Grabbed frame)
    with g assms(2) have "grabbed_frame tk frame s = (c, s')" by simp
    from grabbed_frame_stopped[OF assms(1) this assms(3)] show ?thesis .
  next
    case Not_grabbed
    with g assms(2) have "countdown tk s = (c, s')" by simp
    from countdown_stopped[OF assms(1) this assms(3)] show ?thesis .
  next
    case Raised
    with g assms(2) have "countdown tk s = (c, s')" by simp
    from countdown_stopped[OF assms(1) this assms(3)] show ?thesis .
  qed
qed

lemma reconnect_begin_clears: "\<not> more_frames (reconnect_begin s)"
  by (cases "video_stream_type s")
     (auto simp: reconnect_begin_def Let_def more_frames_def clear_def)

lemma Q_start: "Q (start p s) = Q s"
  by (simp add: start_def Let_def init_src_fields)

lemma reachable_stopped_empty: "reachable s \<Longrightarrow> stopped s \<Longrightarrow> \<not> more_frames s"
proof (induction rule: reachable.induct)
  case (constructed b name t path manual kw s)
  from VideoStream_init_fields(3)[OF constructed.hyps] show ?case by (simp add: more_frames_def)
next
  case (started s p)
  then show ?case by (simp add: not_stopped_start)
next
  case (stop_called s)
  then show ?case by (cases "stopped s") (simp_all add: stop_stopped stop_clears)
next
  case (initialised s p)
  then show ?case by (simp add: init_src_fields more_frames_def)
next
  case (read_called s f s')
  with stopped_read[OF read_called.hyps(2)] read_keeps_empty[OF read_called.hyps(2)]
  show ?case by simp
next
  case (iteration s tk c s')
  from get_body_stopped[OF iteration.hyps(2,3) iteration.prems] show ?case .
next
  case (player_made s)
  then show ?case by (simp add: more_frames_def)
next
  case (reconnecting s)
  show ?case by (rule reconnect_begin_clears)
next
  case (reconnected s p p')
  then show ?case by (simp add: reconnect_def Let_def not_stopped_start)
qed

text \<open>
  C7. In every state that a stream can reach, \<^verbatim>\<open>stop\<close> followed by \<^verbatim>\<open>start\<close> gives a
  running stream with an empty buffer: no frame inserted before the stop is left.
\<close>

theorem stop_then_start_empty_buffer:
  assumes "reachable s"
  shows "\<not> more_frames (start p (stop s)) \<and> \<not> stopped (start p (stop s))"
proof -
  from assms have "reachable (stop s)" by (rule reachable.stop_called)
  from reachable_stopped_empty[OF this stopped_stop] have "\<not> more_frames (stop s)" .
  then show ?thesis by (simp add: more_frames_def Q_start not_stopped_start)
qed

theorem stop_then_start_empty_buffer_witness:
  "reachable one_grabbed \<and> more_frames one_grabbed \<and> \<not> stopped one_grabbed \<and>
   \<not> more_frames (start camera25 (stop one_grabbed)) \<and>
   \<not> stopped (start camera25 (stop one_grabbed))"
proof -
  have "reachable (cam1 Cv2 (-1) default_kwargs :: nat list list video_stream)"
    by (rule reachable.constructed[of Cv2 "''cam1''" "''rtsp''" "Location ''rtsp://h/s''" "-1" default_kwargs])
       (simp add: cam1_def VideoStream_init_def default_kwargs_def deque_new_def)
  then have "reachable (started Cv2)" unfolding started_def by (rule reachable.started)
  then have r: "reachable one_grabbed"
    by (rule reachable.iteration[of _ good_tick "fst (get_body good_tick (started Cv2))"])
       (simp_all add: started_facts one_grabbed_def)
  have m: "more_frames one_grabbed" "\<not> stopped one_grabbed" by code_simp+
  from stop_then_start_empty_buffer[OF r, of camera25] r m show ?thesis by simp
qed

end
